theory Spec2Isabelle
  imports Main "HOL-Library.Char_ord" "HOL-Library.List_Lexorder" "HOL-Library.Product_Lexorder"
begin

section \<open>Data model\<close>

text \<open>
  The types of \<^verbatim>\<open>src/server/api/routers/tweet.ts\<close> and
  \<^verbatim>\<open>src/components/InfiniteTweetList.tsx\<close>. A TypeScript \<^verbatim>\<open>string\<close> is a
  \<open>string\<close>, a \<^verbatim>\<open>Date\<close> is its time value (an \<open>int\<close>), a \<^verbatim>\<open>number\<close> that
  holds a count or a limit is an \<open>int\<close> (fractional numbers are outside the model), and a
  value that may be \<^verbatim>\<open>null\<close> or \<^verbatim>\<open>undefined\<close> is an \<open>option\<close>. A
  \<^verbatim>\<open>number\<close> is a double: the sum \<^verbatim>\<open>limit + 1\<close> of the feed query is rounded as a
  double is (\<open>jsPlus\<close> below). Like counts are numbers of rows of a table, where sums of
  doubles are exact.
\<close>

text \<open>The selected part of a user: \<^verbatim>\<open>user: { select: { name: true, id: true, image: true } }\<close>.\<close>

record User =
  name :: "string option"
  id :: string
  image :: "string option"

text \<open>
  The cursor \<^verbatim>\<open>{ id: string; createdAt: Date }\<close>. Rows and tweets carry both fields, so
  their records extend this one and share its selectors \<open>id\<close> and \<open>createdAt\<close>.
\<close>

record Cursor =
  id :: string
  createdAt :: int

text \<open>A row of the Like table; \<^verbatim>\<open>userId_tweetId\<close> is its compound unique key.\<close>

record Like =
  tweetId :: string
  userId :: string

text \<open>The interface \<^verbatim>\<open>Tweet\<close> of the component, which is also the element type of a page.\<close>

record Tweet = Cursor +
  content :: string
  likeCount :: int
  user :: User
  likedByMe :: bool

text \<open>
  The interface \<^verbatim>\<open>InfiniteTweetListProps\<close>; \<open>'f\<close> stands for the type of the
  callback \<^verbatim>\<open>fetchNewTweets\<close>, which the component only hands on.
\<close>

record 'f InfiniteTweetListProps =
  isLoading :: bool
  isError :: "bool option"
  hasMore :: "bool option"
  fetchNewTweets :: 'f
  tweets :: "Tweet list option"

text \<open>
  A row as \<^verbatim>\<open>findMany\<close> returns it under the \<^verbatim>\<open>select\<close> of \<open>getInfiniteTweets\<close>:
  \<open>count_Likes\<close> is \<^verbatim>\<open>_count.Likes\<close>, and \<open>Likes\<close> is absent when the select says
  \<^verbatim>\<open>Likes: false\<close>.
\<close>

record SelectedTweet = Cursor +
  content :: string
  count_Likes :: int
  Likes :: "Like list option"
  user :: User

text \<open>The value \<open>getInfiniteTweets\<close> returns.\<close>

record FeedPage =
  tweets :: "Tweet list"
  nextCursor :: "Cursor option"

text \<open>The two shapes of \<^verbatim>\<open>Prisma.TweetWhereInput\<close> the router builds.\<close>

datatype TweetWhereInput =
  WhereUserId string
| WhereUserFollowersSome string

text \<open>The argument of \<^verbatim>\<open>ctx.prisma.tweet.findMany\<close>, without its constant parts
  (\<^verbatim>\<open>orderBy\<close> and the rest of \<^verbatim>\<open>select\<close>): \<open>take_n\<close> is \<^verbatim>\<open>take\<close>, and
  \<open>select_Likes\<close> is \<open>None\<close> for \<^verbatim>\<open>Likes: false\<close> and \<open>Some u\<close> for
  \<^verbatim>\<open>Likes: { where: { userId: u } }\<close>.\<close>

record FindManyArgs =
  take_n :: int
  cursor :: "Cursor option"
  whereClause :: "TweetWhereInput option"
  select_Likes :: "string option"

section \<open>The storage\<close>

text \<open>
  Modelled from the spec: the Prisma schema of the repository (the declaration of the
  tables) is not among the source files. The tables below are the ones the router reads and
  writes: tweets with their required author relation \<^verbatim>\<open>user\<close> (the author carries the ids
  of its followers, for \<^verbatim>\<open>followers: { some: { id } }\<close>), users, and likes, whose sole integrity
  guarantee is the uniqueness constraint on \<open>(userId, tweetId)\<close>. A table is a list of rows,
  so that a duplicate row is a state the model can express.
\<close>

record Author = User +
  followers :: "string list"

record TweetRow = Cursor +
  content :: string
  author :: Author

record Database =
  tweet_table :: "TweetRow list"
  like_table :: "Like list"
  user_table :: "Author list"

text \<open>
  The context of a procedure: \<open>session\<close> is \<^verbatim>\<open>ctx.session?.user.id\<close> (\<open>None\<close> for an
  anonymous request), \<open>prisma\<close> the database behind \<^verbatim>\<open>ctx.prisma\<close>.
\<close>

record Context =
  session :: "string option"
  prisma :: Database

subsection \<open>Reading tweets\<close>

text \<open>
  The sort key of \<^verbatim>\<open>orderBy: [{ createdAt: "desc" }, { id: "desc" }]\<close>: pairs are
  compared lexicographically, ids in the order of their characters. The feed lists rows by
  descending key, so a row is after another in the feed when its key is smaller.
\<close>

definition sortKey :: "'a Cursor_scheme \<Rightarrow> int \<times> string" where
  "sortKey r = (createdAt r, id r)"

definition orderByDesc :: "TweetRow list \<Rightarrow> TweetRow list" where
  "orderByDesc rows = rev (sort_key sortKey rows)"

fun matchesWhere :: "TweetWhereInput option \<Rightarrow> TweetRow \<Rightarrow> bool" where
  "matchesWhere None r = True"
| "matchesWhere (Some (WhereUserId u)) r = (User.id (author r) = u)"
| "matchesWhere (Some (WhereUserFollowersSome v)) r = (v \<in> set (followers (author r)))"

text \<open>
  \<^verbatim>\<open>findMany\<close> belongs to Prisma Client, a library the repository uses; the functions
  of this subsection follow its documented behaviour for the options the call passes
  (\<^verbatim>\<open>where\<close>, \<^verbatim>\<open>orderBy\<close>, \<^verbatim>\<open>cursor\<close>, \<^verbatim>\<open>take\<close>, \<^verbatim>\<open>select\<close>).

  The rows a cursor leaves: the cursor names a row by its unique key
  \<^verbatim>\<open>createdAt_id\<close>; with no such row the result is empty; otherwise, for a non-negative
  \<^verbatim>\<open>take\<close>, the result starts at the cursor row itself (only a \<^verbatim>\<open>skip: 1\<close>, which the
  call does not pass, would leave it out) and goes on in the order of the list, and for a
  negative \<^verbatim>\<open>take\<close> it ends at the cursor row.
\<close>

definition fromCursor :: "Database \<Rightarrow> int \<Rightarrow> Cursor option \<Rightarrow> TweetRow list \<Rightarrow> TweetRow list" where
  "fromCursor db n c rows =
     (case c of
        None \<Rightarrow> rows
      | Some cur \<Rightarrow>
          if list_ex (\<lambda>r. sortKey r = sortKey cur) (tweet_table db)
          then (if 0 \<le> n then filter (\<lambda>r. sortKey r \<le> sortKey cur) rows
                else filter (\<lambda>r. sortKey cur \<le> sortKey r) rows)
          else [])"

text \<open>\<^verbatim>\<open>take: n\<close> keeps the first \<open>n\<close> rows, and the last \<open>-n\<close> rows when \<open>n\<close> is negative.\<close>

definition takeRows :: "int \<Rightarrow> 'a list \<Rightarrow> 'a list" where
  "takeRows n rows =
     (if 0 \<le> n then take (nat n) rows else drop (length rows - nat (- n)) rows)"

text \<open>The \<^verbatim>\<open>select\<close> of \<open>getInfiniteTweets\<close>, applied to one row.\<close>

definition selectTweet :: "Database \<Rightarrow> string option \<Rightarrow> TweetRow \<Rightarrow> SelectedTweet" where
  "selectTweet db sel r =
     \<lparr> id = id r, createdAt = createdAt r,
       SelectedTweet.content = TweetRow.content r,
       count_Likes = int (length (filter (\<lambda>l. tweetId l = id r) (like_table db))),
       Likes = (case sel of
                  None \<Rightarrow> None
                | Some u \<Rightarrow> Some (filter (\<lambda>l. tweetId l = id r \<and> userId l = u) (like_table db))),
       SelectedTweet.user = \<lparr> name = name (author r), User.id = User.id (author r),
                image = image (author r) \<rparr> \<rparr>"

definition tweet_findMany :: "Database \<Rightarrow> FindManyArgs \<Rightarrow> SelectedTweet list" where
  "tweet_findMany db args =
     map (selectTweet db (select_Likes args))
       (takeRows (take_n args)
         (fromCursor db (take_n args) (cursor args)
           (orderByDesc (filter (matchesWhere (whereClause args)) (tweet_table db)))))"

section \<open>The feed query\<close>

subsection \<open>Sums of numbers\<close>

text \<open>
  The integers a double represents are those with at most 53 significant bits: \<open>ulp a\<close>
  is the distance between neighbouring doubles at the magnitude \<open>a\<close> (1 below \<open>2^53\<close>,
  2 from there to \<open>2^54\<close>, and so on), and \<open>toDouble n\<close> is the double nearest to the
  integer \<open>n\<close>, the one with the even significand when two are equally near. The sum of
  two numbers is their exact sum rounded this way (\<open>limit + 1\<close> never overflows for a
  finite \<open>limit\<close>).
\<close>

function ulp :: "int \<Rightarrow> int" where
  "ulp a = (if a < 2 ^ 53 then 1 else 2 * ulp (a div 2))"
  by pat_completeness auto
termination
  by (relation "measure (\<lambda>a. nat a)") auto

declare ulp.simps [simp del]

definition toDouble :: "int \<Rightarrow> int" where
  "toDouble n =
     (let a = \<bar>n\<bar>;
          u = ulp a;
          q = a div u;
          r = a mod u;
          m = (if 2 * r < u then q
               else if u < 2 * r then q + 1
               else if even q then q else q + 1)
      in sgn n * (m * u))"

definition jsPlus :: "int \<Rightarrow> int \<Rightarrow> int" where
  "jsPlus a b = toDouble (a + b)"

subsection \<open>The query\<close>

text \<open>The argument object of the \<^verbatim>\<open>findMany\<close> call in \<open>getInfiniteTweets\<close>.\<close>

definition findManyArgs ::
  "TweetWhereInput option \<Rightarrow> Context \<Rightarrow> int \<Rightarrow> Cursor option \<Rightarrow> FindManyArgs" where
  "findManyArgs whereC ctx limit cur =
     \<lparr> take_n = jsPlus limit 1, cursor = cur, whereClause = whereC, select_Likes = session ctx \<rparr>"

text \<open>
  The rest of \<open>getInfiniteTweets\<close>: \<^verbatim>\<open>data.pop()\<close> when \<^verbatim>\<open>data.length > limit\<close>
  (\<^verbatim>\<open>pop\<close> of an empty array gives \<^verbatim>\<open>undefined\<close>, and then no cursor is set), and the
  map to the page's tweets, where \<^verbatim>\<open>tweet.Likes?.length > 0\<close> is false for absent
  \<^verbatim>\<open>Likes\<close>.
\<close>

definition toTweet :: "SelectedTweet \<Rightarrow> Tweet" where
  "toTweet tweet =
     \<lparr> id = id tweet, createdAt = createdAt tweet,
       Tweet.content = SelectedTweet.content tweet,
       likeCount = count_Likes tweet,
       Tweet.user = SelectedTweet.user tweet,
       likedByMe = (case Likes tweet of None \<Rightarrow> False | Some ls \<Rightarrow> 0 < length ls) \<rparr>"

definition pageOf :: "int \<Rightarrow> SelectedTweet list \<Rightarrow> FeedPage" where
  "pageOf limit data =
     (if limit < int (length data)
      then (if data = [] then \<lparr> tweets = [], nextCursor = None \<rparr>
            else \<lparr> tweets = map toTweet (butlast data),
                   nextCursor = Some \<lparr> id = id (last data), createdAt = createdAt (last data) \<rparr> \<rparr>)
      else \<lparr> tweets = map toTweet data, nextCursor = None \<rparr>)"

definition getInfiniteTweets ::
  "TweetWhereInput option \<Rightarrow> Context \<Rightarrow> int \<Rightarrow> Cursor option \<Rightarrow> FeedPage" where
  "getInfiniteTweets whereC ctx limit cur =
     pageOf limit (tweet_findMany (prisma ctx) (findManyArgs whereC ctx limit cur))"

text \<open>The two feed procedures, with the defaults of their destructured input.\<close>

definition infiniteProfileFeed ::
  "Context \<Rightarrow> string \<Rightarrow> int option \<Rightarrow> Cursor option \<Rightarrow> FeedPage" where
  "infiniteProfileFeed ctx uid limit cur =
     getInfiniteTweets (Some (WhereUserId uid)) ctx (case limit of None \<Rightarrow> 10 | Some n \<Rightarrow> n) cur"

definition infiniteFeed ::
  "Context \<Rightarrow> bool option \<Rightarrow> int option \<Rightarrow> Cursor option \<Rightarrow> FeedPage" where
  "infiniteFeed ctx onlyFollowing limit cur =
     getInfiniteTweets
       (case session ctx of
          None \<Rightarrow> None
        | Some currentUserId \<Rightarrow>
            if \<not> (case onlyFollowing of None \<Rightarrow> False | Some b \<Rightarrow> b) then None
            else Some (WhereUserFollowersSome currentUserId))
       ctx (case limit of None \<Rightarrow> 10 | Some n \<Rightarrow> n) cur"

section \<open>Mutations\<close>

datatype Error = UNAUTHORIZED | UniqueConstraintFailed | RecordNotFound | ForeignKeyConstraintFailed

text \<open>
  Modelled from the spec: \<^verbatim>\<open>protectedProcedure\<close> is defined in
  \<^verbatim>\<open>~/server/api/trpc\<close>, which is not among the source files. A mutation attempted
  without a valid session is rejected before the business logic runs; with a session the
  body runs with the id of its user (\<^verbatim>\<open>ctx.session.user.id\<close>).
\<close>

definition protectedProcedure :: "Context \<Rightarrow> (string \<Rightarrow> Error + 'a) \<Rightarrow> Error + 'a" where
  "protectedProcedure ctx body =
     (case session ctx of None \<Rightarrow> Inl UNAUTHORIZED | Some uid \<Rightarrow> body uid)"

subsection \<open>The Like table\<close>

text \<open>
  \<^verbatim>\<open>findUnique\<close>, \<^verbatim>\<open>create\<close> and \<^verbatim>\<open>delete\<close> of \<^verbatim>\<open>ctx.prisma.like\<close>, by the
  compound key \<^verbatim>\<open>userId_tweetId\<close>, as Prisma Client defines them: \<^verbatim>\<open>create\<close> throws
  on a row that is already there (the uniqueness constraint), \<^verbatim>\<open>delete\<close> on a row that
  is not.
\<close>

definition like_findUnique :: "Database \<Rightarrow> Like \<Rightarrow> Like option" where
  "like_findUnique db k = find (\<lambda>l. l = k) (like_table db)"

definition like_create :: "Database \<Rightarrow> Like \<Rightarrow> Error + Database" where
  "like_create db k =
     (if k \<in> set (like_table db) then Inl UniqueConstraintFailed
      else Inr (db\<lparr> like_table := like_table db @ [k] \<rparr>))"

definition like_delete :: "Database \<Rightarrow> Like \<Rightarrow> Error + Database" where
  "like_delete db k =
     (if k \<in> set (like_table db) then Inr (db\<lparr> like_table := removeAll k (like_table db) \<rparr>)
      else Inl RecordNotFound)"

text \<open>
  \<^verbatim>\<open>ctx.prisma.tweet.create\<close>: the id and the creation time are the defaults the
  database fills in, here given by the caller; the author must be a row of the user table,
  and the id must be new.
\<close>

definition tweet_create ::
  "Database \<Rightarrow> string \<Rightarrow> int \<Rightarrow> string \<Rightarrow> string \<Rightarrow> Error + (TweetRow \<times> Database)" where
  "tweet_create db newId now text uid =
     (case find (\<lambda>u. User.id u = uid) (user_table db) of
        None \<Rightarrow> Inl ForeignKeyConstraintFailed
      | Some u \<Rightarrow>
          if list_ex (\<lambda>r. id r = newId) (tweet_table db) then Inl UniqueConstraintFailed
          else (let tweet = \<lparr> id = newId, createdAt = now, TweetRow.content = text, author = u \<rparr>
                in Inr (tweet, db\<lparr> tweet_table := tweet_table db @ [tweet] \<rparr>)))"

subsection \<open>The procedures\<close>

record ToggleLikeResult =
  addedLike :: bool

definition create ::
  "string \<Rightarrow> int \<Rightarrow> Context \<Rightarrow> string \<Rightarrow> Error + (TweetRow \<times> Database)" where
  "create newId now ctx text =
     protectedProcedure ctx (\<lambda>uid. tweet_create (prisma ctx) newId now text uid)"

definition toggleLike :: "Context \<Rightarrow> string \<Rightarrow> Error + (ToggleLikeResult \<times> Database)" where
  "toggleLike ctx tid =
     protectedProcedure ctx (\<lambda>uid.
       let data = \<lparr> tweetId = tid, userId = uid \<rparr>;
           existingLike = like_findUnique (prisma ctx) data
       in (case existingLike of
             None \<Rightarrow>
               (case like_create (prisma ctx) data of
                  Inl e \<Rightarrow> Inl e
                | Inr db \<Rightarrow> Inr (\<lparr> addedLike = True \<rparr>, db))
           | Some l \<Rightarrow>
               (case like_delete (prisma ctx) data of
                  Inl e \<Rightarrow> Inl e
                | Inr db \<Rightarrow> Inr (\<lparr> addedLike = False \<rparr>, db))))"

subsection \<open>The router\<close>

text \<open>
  \<^verbatim>\<open>tweetRouter\<close> offers the four procedures. A call names one of them with its input;
  a query leaves the database as it is. \<open>serve\<close> answers a sequence of calls, each with its
  own session and with the id and time a \<^verbatim>\<open>create\<close> would use; a call that fails
  leaves the database unchanged.
\<close>

datatype Request =
  InfiniteProfileFeedCall string "int option" "Cursor option"
| InfiniteFeedCall "bool option" "int option" "Cursor option"
| CreateCall string
| ToggleLikeCall string

datatype Response =
  PageResponse FeedPage
| TweetResponse TweetRow
| ToggleResponse ToggleLikeResult

fun tweetRouter ::
  "string \<Rightarrow> int \<Rightarrow> Context \<Rightarrow> Request \<Rightarrow> Error + (Response \<times> Database)" where
  "tweetRouter newId now ctx (InfiniteProfileFeedCall uid limit cur) =
     Inr (PageResponse (infiniteProfileFeed ctx uid limit cur), prisma ctx)"
| "tweetRouter newId now ctx (InfiniteFeedCall onlyFollowing limit cur) =
     Inr (PageResponse (infiniteFeed ctx onlyFollowing limit cur), prisma ctx)"
| "tweetRouter newId now ctx (CreateCall text) =
     (case create newId now ctx text of
        Inl e \<Rightarrow> Inl e
      | Inr (tweet, db) \<Rightarrow> Inr (TweetResponse tweet, db))"
| "tweetRouter newId now ctx (ToggleLikeCall tid) =
     (case toggleLike ctx tid of
        Inl e \<Rightarrow> Inl e
      | Inr (res, db) \<Rightarrow> Inr (ToggleResponse res, db))"

record Call =
  caller :: "string option"
  freshId :: string
  clock :: int
  request :: Request

fun serve :: "Database \<Rightarrow> Call list \<Rightarrow> Database" where
  "serve db [] = db"
| "serve db (c # cs) =
     (case tweetRouter (freshId c) (clock c) \<lparr> session = caller c, prisma = db \<rparr> (request c) of
        Inl e \<Rightarrow> serve db cs
      | Inr (res, db') \<Rightarrow> serve db' cs)"

section \<open>The client\<close>

subsection \<open>The cached feeds\<close>

text \<open>
  The data of an infinite query is its sequence of pages (with the cursor each was fetched
  by). The cache holds one slot per query and input: \<open>InfiniteFeedKey None\<close> is the input
  \<^verbatim>\<open>{}\<close>, \<open>InfiniteFeedKey (Some True)\<close> the input \<^verbatim>\<open>{onlyFollowing: true}\<close>, and
  \<open>InfiniteProfileFeedKey u\<close> the input \<^verbatim>\<open>{userId: u}\<close>; a slot that was never
  populated holds \<open>None\<close>.
\<close>

record InfiniteData =
  pages :: "FeedPage list"
  pageParams :: "Cursor option list"

datatype QueryKey =
  InfiniteFeedKey "bool option"
| InfiniteProfileFeedKey string

type_synonym QueryCache = "QueryKey \<Rightarrow> InfiniteData option"

text \<open>
  \<^verbatim>\<open>setInfiniteData(input, updater)\<close> gives the updater the data of the slot
  (\<^verbatim>\<open>undefined\<close> for an empty slot) and stores what it returns; when the updater returns
  \<^verbatim>\<open>undefined\<close> the slot is not written.
\<close>

definition setInfiniteData ::
  "QueryCache \<Rightarrow> QueryKey \<Rightarrow> (InfiniteData option \<Rightarrow> InfiniteData option) \<Rightarrow> QueryCache" where
  "setInfiniteData cache k updater =
     (case updater (cache k) of None \<Rightarrow> cache | Some d \<Rightarrow> cache(k \<mapsto> d))"

text \<open>
  The updater \<^verbatim>\<open>updateData\<close> that \<^verbatim>\<open>onSuccess\<close> builds in a \<^verbatim>\<open>TweetCard\<close> for the
  tweet \<open>tid\<close>, and \<^verbatim>\<open>onSuccess\<close> itself, which applies it to three slots. The card's
  props are the tweet it shows.
\<close>

definition updateData :: "string \<Rightarrow> bool \<Rightarrow> InfiniteData option \<Rightarrow> InfiniteData option" where
  "updateData tid added oldData =
     (case oldData of
        None \<Rightarrow> None
      | Some old \<Rightarrow>
          (let countModifier = (if added then 1 else - 1) in
           Some (old\<lparr> pages :=
             map (\<lambda>page. page\<lparr> FeedPage.tweets :=
                    map (\<lambda>tweet.
                           if id tweet = tid
                           then tweet\<lparr> likeCount := likeCount tweet + countModifier,
                                       likedByMe := added \<rparr>
                           else tweet)
                        (FeedPage.tweets page) \<rparr>)
                 (pages old) \<rparr>)))"

definition onSuccess :: "Tweet \<Rightarrow> ToggleLikeResult \<Rightarrow> QueryCache \<Rightarrow> QueryCache" where
  "onSuccess props res cache =
     (let upd = updateData (id props) (addedLike res);
          cache1 = setInfiniteData cache (InfiniteFeedKey None) upd;
          cache2 = setInfiniteData cache1 (InfiniteFeedKey (Some True)) upd
      in setInfiniteData cache2 (InfiniteProfileFeedKey (User.id (Tweet.user props))) upd)"

subsection \<open>The list component\<close>

text \<open>
  What \<^verbatim>\<open>InfiniteTweetList\<close> returns: \<^verbatim>\<open>null\<close> (\<open>None\<close>) or an element. The
  statements \<^verbatim>\<open>if (isLoading) {<LoadingSpinner />;}\<close> and
  \<^verbatim>\<open>if (isError) <h1>Error...</h1>;\<close> build an element and drop it: neither returns.
\<close>

datatype 'f Element =
  LoadingSpinner
| ErrorHeading
| NoTweets
| TweetList (dataLength: nat) (next_page: 'f) (scroll_hasMore: bool) (loader: "'f Element")
    (cards: "Tweet list")

definition InfiniteTweetList :: "'f InfiniteTweetListProps \<Rightarrow> 'f Element option" where
  "InfiniteTweetList props =
     (let more = (case hasMore props of None \<Rightarrow> False | Some b \<Rightarrow> b);
          dropped1 = (if isLoading props then Some LoadingSpinner else None) :: 'f Element option;
          dropped2 = (if isError props = Some True then Some ErrorHeading else None) :: 'f Element option
      in (case InfiniteTweetListProps.tweets props of
            None \<Rightarrow> None
          | Some ts \<Rightarrow>
              if ts = [] then Some NoTweets
              else Some (TweetList (length ts) (fetchNewTweets props) more LoadingSpinner ts)))"

section \<open>The order of the feed\<close>

text \<open>
  A tweet is strictly after a cursor in the order of the feed (descending \<open>createdAt\<close>,
  then descending \<open>id\<close>) when it is older, or equally old with a smaller id. It is at or
  after the cursor when it is strictly after it or has the cursor's \<open>createdAt\<close> and \<open>id\<close>.
\<close>

definition strictlyAfter :: "Cursor \<Rightarrow> 'a Cursor_scheme \<Rightarrow> bool" where
  "strictlyAfter cur t =
     (createdAt t < createdAt cur \<or> (createdAt t = createdAt cur \<and> id t < id cur))"

definition atOrAfter :: "Cursor \<Rightarrow> 'a Cursor_scheme \<Rightarrow> bool" where
  "atOrAfter cur t =
     (strictlyAfter cur t \<or> (createdAt t = createdAt cur \<and> id t = id cur))"

section \<open>Repeated toggles and the invariant of the Like table\<close>

text \<open>
  The Like table holds at most one record for every \<open>(userId, tweetId)\<close> pair: no row of
  the table occurs in it more than once.
\<close>

definition atMostOneLikePerPair :: "Database \<Rightarrow> bool" where
  "atMostOneLikePerPair db =
     list_all (\<lambda>l. count_list (like_table db) l \<le> 1) (like_table db)"

text \<open>
  \<open>toggleLikeTimes n\<close> calls \<open>toggleLike\<close> \<open>n\<close> times in a row with the same arguments,
  each call on the database the previous one left, and collects the \<open>addedLike\<close> results;
  \<open>alternating b n\<close> is the sequence \<open>b, \<not> b, b, \<dots>\<close> of length \<open>n\<close>.
\<close>

fun alternating :: "bool \<Rightarrow> nat \<Rightarrow> bool list" where
  "alternating b 0 = []"
| "alternating b (Suc n) = b # alternating (\<not> b) n"

fun toggleLikeTimes :: "nat \<Rightarrow> Context \<Rightarrow> string \<Rightarrow> Error + (bool list \<times> Database)" where
  "toggleLikeTimes 0 ctx tid = Inr ([], prisma ctx)"
| "toggleLikeTimes (Suc n) ctx tid =
     (case toggleLike ctx tid of
        Inl e \<Rightarrow> Inl e
      | Inr (res, db) \<Rightarrow>
          (case toggleLikeTimes n (ctx\<lparr> prisma := db \<rparr>) tid of
             Inl e \<Rightarrow> Inl e
           | Inr (rs, db') \<Rightarrow> Inr (addedLike res # rs, db')))"

section \<open>The slots and fields of the like update\<close>

text \<open>
  The three slots \<open>onSuccess\<close> writes, which are the inputs of its three
  \<^verbatim>\<open>setInfiniteData\<close> calls: the unfiltered feed, the following-only feed, and the profile
  feed of the author of the card's tweet.
\<close>

definition toggledSlots :: "Tweet \<Rightarrow> QueryKey list" where
  "toggledSlots props =
     [InfiniteFeedKey None, InfiniteFeedKey (Some True),
      InfiniteProfileFeedKey (User.id (Tweet.user props))]"

text \<open>The fields of a tweet other than \<open>likeCount\<close> and \<open>likedByMe\<close>.\<close>

definition otherFields :: "Tweet \<Rightarrow> string \<times> int \<times> string \<times> User" where
  "otherFields t = (id t, createdAt t, Tweet.content t, Tweet.user t)"

text \<open>What the inner \<^verbatim>\<open>map\<close> of \<open>updateData\<close> does to one tweet.\<close>

definition updateTweet :: "string \<Rightarrow> bool \<Rightarrow> Tweet \<Rightarrow> Tweet" where
  "updateTweet tid added tweet =
     (if id tweet = tid
      then tweet\<lparr> likeCount := likeCount tweet + (if added then 1 else - 1), likedByMe := added \<rparr>
      else tweet)"

section \<open>Example data\<close>

text \<open>
  A small database for the concrete instances below: two users, three tweets (two of them
  created at the same time, so that the id decides their order) and two likes.
\<close>

definition alice :: Author where
  "alice = \<lparr> name = Some ''Alice'', User.id = ''u1'', image = None, followers = [''u2''] \<rparr>"

definition bob :: Author where
  "bob = \<lparr> name = Some ''Bob'', User.id = ''u2'', image = None, followers = [] \<rparr>"

definition exampleDb :: Database where
  "exampleDb =
     \<lparr> tweet_table =
         [ \<lparr> id = ''t1'', createdAt = 100, TweetRow.content = ''one'', author = alice \<rparr>,
           \<lparr> id = ''t2'', createdAt = 200, TweetRow.content = ''two'', author = bob \<rparr>,
           \<lparr> id = ''t3'', createdAt = 200, TweetRow.content = ''three'', author = alice \<rparr> ],
       like_table =
         [ \<lparr> tweetId = ''t1'', userId = ''u2'' \<rparr>, \<lparr> tweetId = ''t3'', userId = ''u1'' \<rparr> ],
       user_table = [alice, bob] \<rparr>"

definition viewerCtx :: Context where
  "viewerCtx = \<lparr> session = Some ''u1'', prisma = exampleDb \<rparr>"

definition anonymousCtx :: Context where
  "anonymousCtx = \<lparr> session = None, prisma = exampleDb \<rparr>"

text \<open>The cursor that the first page of the example feed returns for limit 1.\<close>

definition secondPageCursor :: Cursor where
  "secondPageCursor = \<lparr> id = ''t2'', createdAt = 200 \<rparr>"

text \<open>
  A sequence of calls: the viewer \<open>u1\<close> unlikes \<open>t3\<close> and likes \<open>t1\<close>, \<open>u2\<close> creates a
  tweet, an anonymous caller reads the feed and is refused a toggle, and \<open>u1\<close> likes \<open>t1\<close>
  a second time.
\<close>

definition exampleCalls :: "Call list" where
  "exampleCalls =
     [ \<lparr> caller = Some ''u1'', freshId = ''t4'', clock = 400, request = ToggleLikeCall ''t3'' \<rparr>,
       \<lparr> caller = Some ''u1'', freshId = ''t4'', clock = 400, request = ToggleLikeCall ''t1'' \<rparr>,
       \<lparr> caller = Some ''u2'', freshId = ''t4'', clock = 400, request = CreateCall ''four'' \<rparr>,
       \<lparr> caller = None, freshId = ''t5'', clock = 500,
         request = InfiniteFeedCall (Some True) None None \<rparr>,
       \<lparr> caller = None, freshId = ''t5'', clock = 500, request = ToggleLikeCall ''t1'' \<rparr>,
       \<lparr> caller = Some ''u1'', freshId = ''t5'', clock = 500, request = ToggleLikeCall ''t1'' \<rparr> ]"

text \<open>
  The tweets of the example database as the viewer \<open>u1\<close> sees them, and a cache in which
  the unfiltered feed holds two pages, the following-only feed was never opened, and the
  profile feeds of both users hold one page each.
\<close>

definition tweetT1 :: Tweet where
  "tweetT1 = \<lparr> id = ''t1'', createdAt = 100, Tweet.content = ''one'', likeCount = 1,
      Tweet.user = \<lparr> name = Some ''Alice'', User.id = ''u1'', image = None \<rparr>, likedByMe = False \<rparr>"

definition tweetT2 :: Tweet where
  "tweetT2 = \<lparr> id = ''t2'', createdAt = 200, Tweet.content = ''two'', likeCount = 0,
      Tweet.user = \<lparr> name = Some ''Bob'', User.id = ''u2'', image = None \<rparr>, likedByMe = False \<rparr>"

definition tweetT3 :: Tweet where
  "tweetT3 = \<lparr> id = ''t3'', createdAt = 200, Tweet.content = ''three'', likeCount = 1,
      Tweet.user = \<lparr> name = Some ''Alice'', User.id = ''u1'', image = None \<rparr>, likedByMe = True \<rparr>"

definition globalFeedData :: InfiniteData where
  "globalFeedData =
     \<lparr> pages = [ \<lparr> tweets = [tweetT3, tweetT2], nextCursor = Some \<lparr> id = ''t1'', createdAt = 100 \<rparr> \<rparr>,
                 \<lparr> tweets = [tweetT1], nextCursor = None \<rparr> ],
       pageParams = [None, Some \<lparr> id = ''t1'', createdAt = 100 \<rparr>] \<rparr>"

definition aliceFeedData :: InfiniteData where
  "aliceFeedData =
     \<lparr> pages = [ \<lparr> tweets = [tweetT3, tweetT1], nextCursor = None \<rparr> ], pageParams = [None] \<rparr>"

definition bobFeedData :: InfiniteData where
  "bobFeedData =
     \<lparr> pages = [ \<lparr> tweets = [tweetT2], nextCursor = None \<rparr> ], pageParams = [None] \<rparr>"

fun exampleCache :: QueryCache where
  "exampleCache (InfiniteFeedKey None) = Some globalFeedData"
| "exampleCache (InfiniteFeedKey (Some b)) = None"
| "exampleCache (InfiniteProfileFeedKey u) =
     (if u = ''u1'' then Some aliceFeedData else if u = ''u2'' then Some bobFeedData else None)"

section \<open>Properties of the feed query\<close>

subsection \<open>Rounding\<close>

lemma ulp_small: "a < 2 ^ 53 \<Longrightarrow> ulp a = 1"
  by (simp add: ulp.simps)

lemma toDouble_exact: "\<bar>n\<bar> < 2 ^ 53 \<Longrightarrow> toDouble n = n"
proof -
  assume "\<bar>n\<bar> < 2 ^ 53"
  then have "ulp \<bar>n\<bar> = 1" by (rule ulp_small)
  then show ?thesis
    by (simp add: toDouble_def Let_def mult_sgn_abs)
qed

lemma ulp_bounds: "0 < ulp a \<and> (0 < a \<longrightarrow> ulp a \<le> a)"
proof (induction a rule: ulp.induct)
  case (1 a)
  show ?case
  proof (cases "a < 2 ^ 53")
    case True
    then show ?thesis by (simp add: ulp_small)
  next
    case False
    then have "0 < a div 2" by simp
    with 1 False have IH: "0 < ulp (a div 2)" "ulp (a div 2) \<le> a div 2" by simp_all
    have "ulp a = 2 * ulp (a div 2)" using False by (simp add: ulp.simps [of a])
    moreover have "2 * (a div 2) \<le> a" by simp
    ultimately show ?thesis using IH by linarith
  qed
qed

lemma toDouble_pos: "0 < n \<Longrightarrow> 0 < toDouble n"
proof -
  assume n: "0 < n"
  with ulp_bounds [of "\<bar>n\<bar>"] have u: "0 < ulp \<bar>n\<bar>" "ulp \<bar>n\<bar> \<le> \<bar>n\<bar>" by simp_all
  then have q: "0 < \<bar>n\<bar> div ulp \<bar>n\<bar>"
    by (simp add: pos_imp_zdiv_pos_iff)
  have m: "0 < (if 2 * (\<bar>n\<bar> mod ulp \<bar>n\<bar>) < ulp \<bar>n\<bar> then \<bar>n\<bar> div ulp \<bar>n\<bar>
       else if ulp \<bar>n\<bar> < 2 * (\<bar>n\<bar> mod ulp \<bar>n\<bar>) then \<bar>n\<bar> div ulp \<bar>n\<bar> + 1
       else if even (\<bar>n\<bar> div ulp \<bar>n\<bar>) then \<bar>n\<bar> div ulp \<bar>n\<bar> else \<bar>n\<bar> div ulp \<bar>n\<bar> + 1)"
    using q by simp
  show ?thesis
    unfolding toDouble_def Let_def using n u(1) m by (simp add: zero_less_mult_iff)
qed

lemma toDouble_exact_le: "\<bar>n\<bar> \<le> 2 ^ 53 \<Longrightarrow> toDouble n = n"
proof -
  assume le: "\<bar>n\<bar> \<le> 2 ^ 53"
  have p: "toDouble (2 ^ 53) = 2 ^ 53" and m: "toDouble (- (2 ^ 53)) = - (2 ^ 53)"
    by code_simp+
  consider "\<bar>n\<bar> < 2 ^ 53" | "n = 2 ^ 53" | "n = - (2 ^ 53)"
    using le by linarith
  then show ?thesis
  proof cases
    case 1
    then show ?thesis by (rule toDouble_exact)
  next
    case 2
    with p show ?thesis by simp
  next
    case 3
    with m show ?thesis by simp
  qed
qed

lemma jsPlus_exact: "\<bar>a + b\<bar> \<le> 2 ^ 53 \<Longrightarrow> jsPlus a b = a + b"
  by (simp add: jsPlus_def toDouble_exact_le)

lemma jsPlus_one_pos: "0 \<le> n \<Longrightarrow> 0 < jsPlus n 1"
  by (simp add: jsPlus_def toDouble_pos)

subsection \<open>The page\<close>

lemma length_takeRows: "0 \<le> n \<Longrightarrow> length (takeRows n xs) \<le> nat n"
  by (simp add: takeRows_def)

lemma length_tweet_findMany:
  "0 \<le> take_n args \<Longrightarrow> length (tweet_findMany db args) \<le> nat (take_n args)"
  by (simp add: tweet_findMany_def length_takeRows)

text \<open>
  Claim C1, as the code has it. For an integer limit \<open>n\<close> with \<open>0 \<le> n < 2^53\<close>,
  \<open>getInfiniteTweets\<close> asks the storage for \<open>n + 1\<close> rows. When the storage returns more
  than \<open>n\<close> rows, it returned exactly \<open>n + 1\<close>, the page holds the first \<open>n\<close> of them,
  and \<open>nextCursor\<close> is present and is the \<open>(id, createdAt)\<close> of the removed row, the
  one at index \<open>n\<close>. When the storage returns at most \<open>n\<close> rows, the page holds all of
  them and \<open>nextCursor\<close> is absent.
\<close>

theorem getInfiniteTweets_page:
  assumes "0 \<le> limit" and "limit < 2 ^ 53"
  shows "take_n (findManyArgs whereC ctx limit cur) = limit + 1 \<and>
    (let data = tweet_findMany (prisma ctx) (findManyArgs whereC ctx limit cur);
         page = getInfiniteTweets whereC ctx limit cur
     in (limit < int (length data) \<longrightarrow>
           tweets page = map toTweet (take (nat limit) data) \<and>
           length (tweets page) = nat limit \<and>
           length data = nat limit + 1 \<and>
           nextCursor page =
             Some \<lparr> id = id (data ! nat limit), createdAt = createdAt (data ! nat limit) \<rparr>) \<and>
        (int (length data) \<le> limit \<longrightarrow>
           tweets page = map toTweet data \<and> nextCursor page = None))"
proof -
  let ?args = "findManyArgs whereC ctx limit cur"
  let ?data = "tweet_findMany (prisma ctx) ?args"
  have "\<bar>limit + 1\<bar> \<le> 2 ^ 53"
    using assms by simp
  then have t: "take_n ?args = limit + 1"
    by (simp add: findManyArgs_def jsPlus_exact)
  have "length ?data \<le> nat (take_n ?args)"
    using assms t by (intro length_tweet_findMany) simp
  then have le: "length ?data \<le> nat limit + 1"
    using assms t by simp
  have more: "tweets (pageOf limit ?data) = map toTweet (take (nat limit) ?data) \<and>
      length (tweets (pageOf limit ?data)) = nat limit \<and>
      length ?data = nat limit + 1 \<and>
      nextCursor (pageOf limit ?data) =
        Some \<lparr> id = id (?data ! nat limit), createdAt = createdAt (?data ! nat limit) \<rparr>"
    if "limit < int (length ?data)"
  proof -
    from that le assms have len: "length ?data = nat limit + 1" by linarith
    then have ne: "?data \<noteq> []" by auto
    have bl: "butlast ?data = take (nat limit) ?data"
      using len by (simp add: butlast_conv_take)
    have la: "last ?data = ?data ! nat limit"
      using len ne by (simp add: last_conv_nth)
    show ?thesis
      using that ne bl la len by (simp add: pageOf_def)
  qed
  have fewer: "tweets (pageOf limit ?data) = map toTweet ?data \<and>
      nextCursor (pageOf limit ?data) = None"
    if "int (length ?data) \<le> limit"
    using that by (simp add: pageOf_def)
  show ?thesis
    unfolding Let_def getInfiniteTweets_def using t more fewer by blast
qed

text \<open>
  On the example database with limit 1 the storage is asked for two rows and returns the two
  newest, \<open>t3\<close> and \<open>t2\<close>; the page is \<open>t3\<close> alone and the cursor names \<open>t2\<close>.
\<close>

theorem getInfiniteTweets_page_witness:
  "(0::int) \<le> 1 \<and> (1::int) < 2 ^ 53 \<and>
   take_n (findManyArgs None viewerCtx 1 None) = 2 \<and>
   map id (tweets (getInfiniteTweets None viewerCtx 1 None)) = [''t3''] \<and>
   nextCursor (getInfiniteTweets None viewerCtx 1 None) = Some \<lparr> id = ''t2'', createdAt = 200 \<rparr>"
proof -
  have h: "(0::int) \<le> 1" and h2: "(1::int) < 2 ^ 53" by simp_all
  have d: "tweet_findMany (prisma viewerCtx) (findManyArgs None viewerCtx 1 None) =
      [ \<lparr> id = ''t3'', createdAt = 200, SelectedTweet.content = ''three'', count_Likes = 1,
          Likes = Some [\<lparr> tweetId = ''t3'', userId = ''u1'' \<rparr>],
          SelectedTweet.user = \<lparr> name = Some ''Alice'', User.id = ''u1'', image = None \<rparr> \<rparr>,
        \<lparr> id = ''t2'', createdAt = 200, SelectedTweet.content = ''two'', count_Likes = 0,
          Likes = Some [],
          SelectedTweet.user = \<lparr> name = Some ''Bob'', User.id = ''u2'', image = None \<rparr> \<rparr> ]"
    by code_simp
  show ?thesis
    using getInfiniteTweets_page [OF h h2, of None viewerCtx None]
    unfolding d Let_def by (simp add: toTweet_def)
qed

text \<open>
  The claim as the spec words it, for every limit, fails at two limits that the schema
  \<^verbatim>\<open>z.number()\<close> lets through. At the limit \<open>2^53\<close> the sum \<^verbatim>\<open>limit + 1\<close> rounds back
  to \<open>2^53\<close>, so the storage is asked for \<open>n\<close> rows and not for \<open>n + 1\<close>. At the limit
  \<open>-1\<close> the storage is asked for no rows and returns none, which is more than \<open>n\<close>
  rows; \<^verbatim>\<open>pop\<close> then gives \<^verbatim>\<open>undefined\<close>, and the page comes without a cursor.
\<close>

theorem getInfiniteTweets_page_fails:
  "take_n (findManyArgs None viewerCtx (2 ^ 53) None) = 2 ^ 53 \<and>
   take_n (findManyArgs None viewerCtx (2 ^ 53) None) \<noteq> 2 ^ 53 + 1 \<and>
   take_n (findManyArgs None viewerCtx (- 1) None) = 0 \<and>
   tweet_findMany (prisma viewerCtx) (findManyArgs None viewerCtx (- 1) None) = [] \<and>
   - 1 < int (length (tweet_findMany (prisma viewerCtx) (findManyArgs None viewerCtx (- 1) None))) \<and>
   tweets (getInfiniteTweets None viewerCtx (- 1) None) = [] \<and>
   nextCursor (getInfiniteTweets None viewerCtx (- 1) None) = None"
  by code_simp

subsection \<open>The cursor\<close>

lemma strictlyAfter_sortKey: "strictlyAfter cur t \<longleftrightarrow> sortKey t < sortKey cur"
  by (auto simp: strictlyAfter_def sortKey_def)

lemma atOrAfter_sortKey: "atOrAfter cur t \<longleftrightarrow> sortKey t \<le> sortKey cur"
  by (auto simp: atOrAfter_def strictlyAfter_def sortKey_def)

lemma sortKey_selectTweet: "sortKey (selectTweet db sel r) = sortKey r"
  by (simp add: sortKey_def selectTweet_def)

lemma sortKey_toTweet: "sortKey (toTweet t) = sortKey t"
  by (simp add: sortKey_def toTweet_def)

lemma tweets_pageOf_subset: "set (tweets (pageOf limit data)) \<subseteq> toTweet ` set data"
  by (auto simp: pageOf_def dest: in_set_butlastD)

lemma hd_tweets_pageOf:
  assumes "1 \<le> limit" and "data \<noteq> []"
  shows "tweets (pageOf limit data) \<noteq> [] \<and> hd (tweets (pageOf limit data)) = toTweet (hd data)"
proof (cases "limit < int (length data)")
  case True
  with assms have "2 \<le> length data" by linarith
  then obtain x y zs where "data = x # y # zs"
    by (cases data; cases "tl data") auto
  with True show ?thesis by (simp add: pageOf_def)
next
  case False
  with assms show ?thesis by (simp add: pageOf_def hd_map)
qed

lemma sorted_orderByDesc:
  "sorted_wrt (\<lambda>a b. sortKey b \<le> sortKey a) (orderByDesc rows)"
proof -
  have "sorted_wrt (\<lambda>a b. sortKey a \<le> sortKey b) (sort_key sortKey rows)"
    using sorted_sort_key [of sortKey rows] by (simp add: sorted_map)
  then show ?thesis
    by (simp add: orderByDesc_def sorted_wrt_rev)
qed

lemma set_orderByDesc: "set (orderByDesc rows) = set rows"
  by (simp add: orderByDesc_def)

lemma hd_filter_desc:
  assumes "sorted_wrt (\<lambda>a b. sortKey b \<le> sortKey a) rows"
    and "r \<in> set rows" and "sortKey r = k"
  shows "filter (\<lambda>x. sortKey x \<le> k) rows \<noteq> [] \<and>
         sortKey (hd (filter (\<lambda>x. sortKey x \<le> k) rows)) = k"
proof -
  let ?F = "filter (\<lambda>x. sortKey x \<le> k) rows"
  have rF: "r \<in> set ?F" using assms by simp
  then have ne: "?F \<noteq> []" by (metis empty_iff list.set(1))
  then obtain h t where F: "?F = h # t" by (cases ?F) auto
  have "sorted_wrt (\<lambda>a b. sortKey b \<le> sortKey a) ?F"
    using assms(1) by (rule sorted_wrt_filter)
  with F have "\<forall>x \<in> set t. sortKey x \<le> sortKey h" by simp
  with rF F have "sortKey r \<le> sortKey h" by auto
  moreover have "h \<in> set ?F" using F by simp
  then have "sortKey h \<le> k" by simp
  ultimately have "sortKey h = k" using assms(3) by simp
  with F ne show ?thesis by simp
qed

text \<open>
  Claim C2, as the code has it. The call hands the cursor to \<^verbatim>\<open>findMany\<close> without a
  \<^verbatim>\<open>skip\<close>, so the cursor is an inclusive start point: for a limit that is not negative,
  every tweet of the returned page is at or after the cursor in the order of the feed (none
  sorts before it), and when the limit is at least 1 and a row with the cursor's
  \<open>(createdAt, id)\<close> is in the table and matches the filter, that row is the first tweet of
  the page. This is what makes the pages chain: \<open>nextCursor\<close> names the row that was
  removed from the previous page, and the next page starts with it.
\<close>

theorem cursor_is_inclusive:
  assumes "0 \<le> limit"
  shows "(\<forall>t \<in> set (tweets (getInfiniteTweets whereC ctx limit (Some cur))). atOrAfter cur t) \<and>
     (1 \<le> limit \<and>
      (\<exists>r \<in> set (tweet_table (prisma ctx)). sortKey r = sortKey cur \<and> matchesWhere whereC r) \<longrightarrow>
        tweets (getInfiniteTweets whereC ctx limit (Some cur)) \<noteq> [] \<and>
        id (hd (tweets (getInfiniteTweets whereC ctx limit (Some cur)))) = id cur \<and>
        createdAt (hd (tweets (getInfiniteTweets whereC ctx limit (Some cur)))) = createdAt cur)"
proof -
  let ?db = "prisma ctx"
  let ?rows = "orderByDesc (filter (matchesWhere whereC) (tweet_table ?db))"
  let ?n = "jsPlus limit 1"
  let ?from = "fromCursor ?db ?n (Some cur) ?rows"
  let ?data = "map (selectTweet ?db (session ctx)) (take (nat ?n) ?from)"
  let ?page = "getInfiniteTweets whereC ctx limit (Some cur)"
  have n: "0 < ?n"
    using assms by (rule jsPlus_one_pos)
  have page: "?page = pageOf limit ?data"
    using n
    by (simp add: getInfiniteTweets_def tweet_findMany_def findManyArgs_def takeRows_def)
  have from_le: "sortKey r \<le> sortKey cur" if "r \<in> set ?from" for r
    using that n by (auto simp: fromCursor_def split: if_splits)
  have part1: "atOrAfter cur t" if "t \<in> set (tweets ?page)" for t
  proof -
    from that page tweets_pageOf_subset [of limit ?data]
    obtain r where "r \<in> set (take (nat ?n) ?from)"
      and "t = toTweet (selectTweet ?db (session ctx) r)"
      by auto
    then have "r \<in> set ?from" and "sortKey t = sortKey r"
      by (auto dest: in_set_takeD simp: sortKey_toTweet sortKey_selectTweet)
    with from_le show ?thesis by (simp add: atOrAfter_sortKey)
  qed
  have part2: "tweets ?page \<noteq> [] \<and> sortKey (hd (tweets ?page)) = sortKey cur"
    if l: "1 \<le> limit" and r: "r \<in> set (tweet_table ?db)" "sortKey r = sortKey cur"
      "matchesWhere whereC r" for r
  proof -
    have ex: "list_ex (\<lambda>r. sortKey r = sortKey cur) (tweet_table ?db)"
      using r by (auto simp: list_ex_iff)
    have fromEq: "?from = filter (\<lambda>x. sortKey x \<le> sortKey cur) ?rows"
      using ex n by (simp add: fromCursor_def)
    have "r \<in> set ?rows" using r by (simp add: set_orderByDesc)
    from hd_filter_desc [OF sorted_orderByDesc this r(2)] fromEq
    have ne: "?from \<noteq> []" and k: "sortKey (hd ?from) = sortKey cur" by simp_all
    have tne: "take (nat ?n) ?from \<noteq> []" using ne n by simp
    have thd: "hd (take (nat ?n) ?from) = hd ?from"
      using n by (cases ?from) (simp_all add: take_Cons')
    from tne have dne: "?data \<noteq> []" by simp
    have "hd ?data = selectTweet ?db (session ctx) (hd ?from)"
      using tne thd by (simp add: hd_map)
    with hd_tweets_pageOf [OF l dne] page k show ?thesis
      by (simp add: sortKey_toTweet sortKey_selectTweet)
  qed
  show ?thesis
    using part1 part2 by (auto simp: sortKey_def)
qed

theorem cursor_is_inclusive_witness:
  "(0::int) \<le> 1 \<and> (1::int) \<le> 1 \<and>
   list_ex (\<lambda>r. sortKey r = sortKey secondPageCursor \<and> matchesWhere None r)
     (tweet_table (prisma viewerCtx)) \<and>
   list_all (atOrAfter secondPageCursor)
     (tweets (getInfiniteTweets None viewerCtx 1 (Some secondPageCursor))) \<and>
   tweets (getInfiniteTweets None viewerCtx 1 (Some secondPageCursor)) \<noteq> [] \<and>
   id (hd (tweets (getInfiniteTweets None viewerCtx 1 (Some secondPageCursor)))) = ''t2'' \<and>
   createdAt (hd (tweets (getInfiniteTweets None viewerCtx 1 (Some secondPageCursor)))) = 200"
proof -
  have h: "(0::int) \<le> 1" and h1: "(1::int) \<le> 1" by simp_all
  have ex: "\<exists>r \<in> set (tweet_table (prisma viewerCtx)).
      sortKey r = sortKey secondPageCursor \<and> matchesWhere None r"
    by (simp add: viewerCtx_def exampleDb_def sortKey_def secondPageCursor_def)
  have c: "id secondPageCursor = ''t2''" "createdAt secondPageCursor = 200"
    by (simp_all add: secondPageCursor_def)
  show ?thesis
    using cursor_is_inclusive [OF h, of None viewerCtx secondPageCursor] h1 ex c
    by (simp add: list_all_iff list_ex_iff)
qed

text \<open>
  The claim as the spec words it (an exclusive cursor: every tweet of the page strictly
  after the cursor, the cursor's row never in the page) fails on the example feed: the
  first page for limit 1 returns the cursor of \<open>t2\<close>, and the page fetched with that
  cursor is \<open>t2\<close> itself.
\<close>

theorem cursor_row_in_page:
  "nextCursor (getInfiniteTweets None viewerCtx 1 None) = Some secondPageCursor \<and>
   map id (tweets (getInfiniteTweets None viewerCtx 1 (Some secondPageCursor))) = [''t2''] \<and>
   \<not> list_all (strictlyAfter secondPageCursor)
       (tweets (getInfiniteTweets None viewerCtx 1 (Some secondPageCursor)))"
  by code_simp

section \<open>Properties of the like toggle\<close>

lemma like_findUnique_None: "like_findUnique db k = None \<longleftrightarrow> k \<notin> set (like_table db)"
  by (auto simp: like_findUnique_def find_None_iff)

lemma like_findUnique_Some: "like_findUnique db k = Some l \<longleftrightarrow> l = k \<and> k \<in> set (like_table db)"
proof
  assume "like_findUnique db k = Some l"
  then show "l = k \<and> k \<in> set (like_table db)"
    by (auto simp: like_findUnique_def find_Some_iff)
next
  assume "l = k \<and> k \<in> set (like_table db)"
  then have "like_findUnique db k \<noteq> None" by (simp add: like_findUnique_None)
  then obtain l' where "like_findUnique db k = Some l'" by auto
  moreover from this have "l' = k" by (auto simp: like_findUnique_def find_Some_iff)
  ultimately show "like_findUnique db k = Some l" using \<open>l = k \<and> _\<close> by simp
qed

lemma toggleLike_absent:
  assumes "session ctx = Some viewerId"
    and "\<lparr> tweetId = tid, userId = viewerId \<rparr> \<notin> set (like_table (prisma ctx))"
  shows "toggleLike ctx tid =
     Inr (\<lparr> addedLike = True \<rparr>,
          (prisma ctx)\<lparr> like_table := like_table (prisma ctx) @ [\<lparr> tweetId = tid, userId = viewerId \<rparr>] \<rparr>)"
  using assms like_findUnique_None [of "prisma ctx" "\<lparr> tweetId = tid, userId = viewerId \<rparr>"]
  by (simp add: toggleLike_def protectedProcedure_def like_create_def)

lemma toggleLike_present:
  assumes "session ctx = Some viewerId"
    and "\<lparr> tweetId = tid, userId = viewerId \<rparr> \<in> set (like_table (prisma ctx))"
  shows "toggleLike ctx tid =
     Inr (\<lparr> addedLike = False \<rparr>,
          (prisma ctx)\<lparr> like_table := removeAll \<lparr> tweetId = tid, userId = viewerId \<rparr> (like_table (prisma ctx)) \<rparr>)"
proof -
  let ?l = "\<lparr> tweetId = tid, userId = viewerId \<rparr>"
  have "like_findUnique (prisma ctx) ?l = Some ?l"
    using assms(2) by (simp add: like_findUnique_Some)
  then show ?thesis
    using assms by (simp add: toggleLike_def protectedProcedure_def like_delete_def)
qed

text \<open>
  Claim C4. For a viewer and a tweet id: when the Like table has no row for the pair,
  \<open>toggleLike\<close> creates exactly that row (the table is the old one with the row appended)
  and returns \<open>addedLike = True\<close>; when it has one, \<open>toggleLike\<close> deletes it (the table is
  the old one without that row) and returns \<open>addedLike = False\<close>. Both prior states are
  the normal flow: with a session \<open>toggleLike\<close> never returns an error, in particular no
  "not found" and no uniqueness failure from the storage.
\<close>

theorem toggleLike_creates_or_deletes:
  assumes "session ctx = Some viewerId"
  shows "(\<lparr> tweetId = tid, userId = viewerId \<rparr> \<notin> set (like_table (prisma ctx)) \<longrightarrow>
            toggleLike ctx tid =
              Inr (\<lparr> addedLike = True \<rparr>,
                   (prisma ctx)\<lparr> like_table :=
                      like_table (prisma ctx) @ [\<lparr> tweetId = tid, userId = viewerId \<rparr>] \<rparr>)) \<and>
         (\<lparr> tweetId = tid, userId = viewerId \<rparr> \<in> set (like_table (prisma ctx)) \<longrightarrow>
            toggleLike ctx tid =
              Inr (\<lparr> addedLike = False \<rparr>,
                   (prisma ctx)\<lparr> like_table :=
                      removeAll \<lparr> tweetId = tid, userId = viewerId \<rparr> (like_table (prisma ctx)) \<rparr>)) \<and>
         (\<forall>e. toggleLike ctx tid \<noteq> Inl e)"
proof (cases "\<lparr> tweetId = tid, userId = viewerId \<rparr> \<in> set (like_table (prisma ctx))")
  case True
  with toggleLike_present [OF assms True] show ?thesis by simp
next
  case False
  with toggleLike_absent [OF assms False] show ?thesis by simp
qed


theorem toggleLike_creates_or_deletes_witness:
  "session viewerCtx = Some ''u1'' \<and>
   \<lparr> tweetId = ''t1'', userId = ''u1'' \<rparr> \<notin> set (like_table (prisma viewerCtx)) \<and>
   toggleLike viewerCtx ''t1'' =
     Inr (\<lparr> addedLike = True \<rparr>,
          exampleDb\<lparr> like_table :=
            [ \<lparr> tweetId = ''t1'', userId = ''u2'' \<rparr>, \<lparr> tweetId = ''t3'', userId = ''u1'' \<rparr>,
              \<lparr> tweetId = ''t1'', userId = ''u1'' \<rparr> ] \<rparr>) \<and>
   \<lparr> tweetId = ''t3'', userId = ''u1'' \<rparr> \<in> set (like_table (prisma viewerCtx)) \<and>
   toggleLike viewerCtx ''t3'' =
     Inr (\<lparr> addedLike = False \<rparr>,
          exampleDb\<lparr> like_table := [ \<lparr> tweetId = ''t1'', userId = ''u2'' \<rparr> ] \<rparr>)"
proof -
  have s: "session viewerCtx = Some ''u1''"
    by (simp add: viewerCtx_def)
  have p: "prisma viewerCtx = exampleDb"
    by (simp add: viewerCtx_def)
  have l: "like_table exampleDb =
      [ \<lparr> tweetId = ''t1'', userId = ''u2'' \<rparr>, \<lparr> tweetId = ''t3'', userId = ''u1'' \<rparr> ]"
    by (simp add: exampleDb_def)
  show ?thesis
    using toggleLike_creates_or_deletes [OF s, of "''t1''"]
      toggleLike_creates_or_deletes [OF s, of "''t3''"] s
    unfolding p l by simp
qed

lemma toggleLike_flips:
  assumes "session ctx = Some viewerId"
  shows "\<exists>db. toggleLike ctx tid =
       Inr (\<lparr> addedLike = (\<lparr> tweetId = tid, userId = viewerId \<rparr> \<notin> set (like_table (prisma ctx))) \<rparr>, db) \<and>
     (\<lparr> tweetId = tid, userId = viewerId \<rparr> \<in> set (like_table db) \<longleftrightarrow>
        \<lparr> tweetId = tid, userId = viewerId \<rparr> \<notin> set (like_table (prisma ctx))) \<and>
     set (like_table db) - {\<lparr> tweetId = tid, userId = viewerId \<rparr>} =
        set (like_table (prisma ctx)) - {\<lparr> tweetId = tid, userId = viewerId \<rparr>} \<and>
     (distinct (like_table (prisma ctx)) \<longrightarrow> distinct (like_table db)) \<and>
     tweet_table db = tweet_table (prisma ctx) \<and> user_table db = user_table (prisma ctx)"
proof (cases "\<lparr> tweetId = tid, userId = viewerId \<rparr> \<in> set (like_table (prisma ctx))")
  case True
  show ?thesis
    unfolding toggleLike_present [OF assms True] using True by (auto simp: distinct_removeAll)
next
  case False
  show ?thesis
    unfolding toggleLike_absent [OF assms False] using False by auto
qed

lemma toggleLikeTimes_alternating:
  "session ctx = Some viewerId \<Longrightarrow>
   \<exists>db. toggleLikeTimes n ctx tid =
     Inr (alternating (\<lparr> tweetId = tid, userId = viewerId \<rparr> \<notin> set (like_table (prisma ctx))) n, db)"
proof (induction n arbitrary: ctx)
  case 0
  then show ?case by simp
next
  case (Suc n)
  from toggleLike_flips [OF Suc.prems, of tid]
  obtain db where t: "toggleLike ctx tid =
       Inr (\<lparr> addedLike = (\<lparr> tweetId = tid, userId = viewerId \<rparr> \<notin> set (like_table (prisma ctx))) \<rparr>, db)"
    and m: "\<lparr> tweetId = tid, userId = viewerId \<rparr> \<in> set (like_table db) \<longleftrightarrow>
        \<lparr> tweetId = tid, userId = viewerId \<rparr> \<notin> set (like_table (prisma ctx))"
    by blast
  have "session (ctx\<lparr> prisma := db \<rparr>) = Some viewerId" using Suc.prems by simp
  from Suc.IH [OF this] obtain db' where
    "toggleLikeTimes n (ctx\<lparr> prisma := db \<rparr>) tid =
       Inr (alternating (\<lparr> tweetId = tid, userId = viewerId \<rparr> \<notin> set (like_table db)) n, db')"
    by auto
  with t m show ?case by simp
qed

text \<open>
  Claim C5. For every viewer, tweet and starting Like table, two consecutive \<open>toggleLike\<close>
  calls with the same arguments both succeed and leave the Like state as it was: the table
  holds the same rows (and no duplicate if it had none), every lookup by key answers as
  before, and the other tables are untouched. The second result is the negation of the
  first, and the results of any number of consecutive calls alternate, starting with
  \<open>True\<close> exactly when the Like was absent.
\<close>

theorem toggleLike_twice:
  assumes "session ctx = Some viewerId"
  shows "(\<exists>r1 db1 r2 db2.
            toggleLike ctx tid = Inr (r1, db1) \<and>
            toggleLike (ctx\<lparr> prisma := db1 \<rparr>) tid = Inr (r2, db2) \<and>
            addedLike r2 = (\<not> addedLike r1) \<and>
            set (like_table db2) = set (like_table (prisma ctx)) \<and>
            (distinct (like_table (prisma ctx)) \<longrightarrow> distinct (like_table db2)) \<and>
            (\<forall>k. like_findUnique db2 k = like_findUnique (prisma ctx) k) \<and>
            tweet_table db2 = tweet_table (prisma ctx) \<and>
            user_table db2 = user_table (prisma ctx)) \<and>
         (\<forall>n. \<exists>db. toggleLikeTimes n ctx tid =
            Inr (alternating (\<lparr> tweetId = tid, userId = viewerId \<rparr> \<notin> set (like_table (prisma ctx))) n, db))"
proof -
  let ?l = "\<lparr> tweetId = tid, userId = viewerId \<rparr>"
  from toggleLike_flips [OF assms, of tid]
  obtain db1 where t1: "toggleLike ctx tid = Inr (\<lparr> addedLike = (?l \<notin> set (like_table (prisma ctx))) \<rparr>, db1)"
    and m1: "?l \<in> set (like_table db1) \<longleftrightarrow> ?l \<notin> set (like_table (prisma ctx))"
    and s1: "set (like_table db1) - {?l} = set (like_table (prisma ctx)) - {?l}"
    and d1: "distinct (like_table (prisma ctx)) \<longrightarrow> distinct (like_table db1)"
    and o1: "tweet_table db1 = tweet_table (prisma ctx)" "user_table db1 = user_table (prisma ctx)"
    by blast
  have "session (ctx\<lparr> prisma := db1 \<rparr>) = Some viewerId" using assms by simp
  from toggleLike_flips [OF this, of tid]
  obtain db2 where t2: "toggleLike (ctx\<lparr> prisma := db1 \<rparr>) tid =
        Inr (\<lparr> addedLike = (?l \<notin> set (like_table db1)) \<rparr>, db2)"
    and m2: "?l \<in> set (like_table db2) \<longleftrightarrow> ?l \<notin> set (like_table db1)"
    and s2: "set (like_table db2) - {?l} = set (like_table db1) - {?l}"
    and d2: "distinct (like_table db1) \<longrightarrow> distinct (like_table db2)"
    and o2: "tweet_table db2 = tweet_table db1" "user_table db2 = user_table db1"
    by auto
  have seteq: "set (like_table db2) = set (like_table (prisma ctx))"
    using m1 m2 s1 s2 by blast
  have fu: "like_findUnique db2 k = like_findUnique (prisma ctx) k" for k
  proof (cases "k \<in> set (like_table (prisma ctx))")
    case True
    with seteq have "like_findUnique db2 k = Some k" "like_findUnique (prisma ctx) k = Some k"
      by (simp_all add: like_findUnique_Some)
    then show ?thesis by simp
  next
    case False
    with seteq have "like_findUnique db2 k = None" "like_findUnique (prisma ctx) k = None"
      by (simp_all add: like_findUnique_None)
    then show ?thesis by simp
  qed
  have two: "\<exists>r1 db1 r2 db2.
            toggleLike ctx tid = Inr (r1, db1) \<and>
            toggleLike (ctx\<lparr> prisma := db1 \<rparr>) tid = Inr (r2, db2) \<and>
            addedLike r2 = (\<not> addedLike r1) \<and>
            set (like_table db2) = set (like_table (prisma ctx)) \<and>
            (distinct (like_table (prisma ctx)) \<longrightarrow> distinct (like_table db2)) \<and>
            (\<forall>k. like_findUnique db2 k = like_findUnique (prisma ctx) k) \<and>
            tweet_table db2 = tweet_table (prisma ctx) \<and>
            user_table db2 = user_table (prisma ctx)"
    using t1 t2 m1 seteq d1 d2 fu o1 o2 by (intro exI conjI) (assumption | simp)+
  show ?thesis
    using two toggleLikeTimes_alternating [OF assms] by blast
qed


theorem toggleLike_twice_witness:
  "session viewerCtx = Some ''u1'' \<and>
   (\<exists>db. toggleLikeTimes 3 viewerCtx ''t1'' = Inr ([True, False, True], db)) \<and>
   (\<exists>db. toggleLikeTimes 4 viewerCtx ''t3'' = Inr ([False, True, False, True], db))"
proof -
  have s: "session viewerCtx = Some ''u1''"
    by (simp add: viewerCtx_def)
  have l: "like_table (prisma viewerCtx) =
      [ \<lparr> tweetId = ''t1'', userId = ''u2'' \<rparr>, \<lparr> tweetId = ''t3'', userId = ''u1'' \<rparr> ]"
    by (simp add: viewerCtx_def exampleDb_def)
  have a: "alternating True 3 = [True, False, True]"
    "alternating False 4 = [False, True, False, True]"
    by (simp_all add: eval_nat_numeral)
  from toggleLike_twice [OF s, of "''t1''"] toggleLike_twice [OF s, of "''t3''"]
  have "\<exists>db. toggleLikeTimes 3 viewerCtx ''t1'' =
      Inr (alternating (\<lparr> tweetId = ''t1'', userId = ''u1'' \<rparr> \<notin> set (like_table (prisma viewerCtx))) 3, db)"
    and "\<exists>db. toggleLikeTimes 4 viewerCtx ''t3'' =
      Inr (alternating (\<lparr> tweetId = ''t3'', userId = ''u1'' \<rparr> \<notin> set (like_table (prisma viewerCtx))) 4, db)"
    by blast+
  then show ?thesis
    unfolding l using s a by simp
qed

lemma distinct_count_list: "distinct xs \<longleftrightarrow> (\<forall>x \<in> set xs. count_list xs x \<le> 1)"
proof (induction xs)
  case Nil
  then show ?case by simp
next
  case (Cons a xs)
  have a: "count_list xs a = 0 \<longleftrightarrow> a \<notin> set xs"
    by (simp add: count_list_0_iff)
  show ?case
  proof
    assume "distinct (a # xs)"
    with Cons a show "\<forall>x \<in> set (a # xs). count_list (a # xs) x \<le> 1"
      by auto
  next
    assume r: "\<forall>x \<in> set (a # xs). count_list (a # xs) x \<le> 1"
    then have "count_list xs a = 0" by simp
    with a have na: "a \<notin> set xs" by simp
    have "\<forall>x \<in> set xs. count_list xs x \<le> 1"
    proof
      fix x assume "x \<in> set xs"
      with r have "count_list (a # xs) x \<le> 1" by simp
      then show "count_list xs x \<le> 1" by (simp split: if_splits)
    qed
    with Cons na show "distinct (a # xs)" by simp
  qed
qed

lemma atMostOneLikePerPair_distinct: "atMostOneLikePerPair db \<longleftrightarrow> distinct (like_table db)"
  by (simp add: atMostOneLikePerPair_def list_all_iff distinct_count_list)

lemma tweet_create_likes:
  "tweet_create db newId now msg uid = Inr (tweet, db') \<Longrightarrow> like_table db' = like_table db"
  by (auto simp: tweet_create_def Let_def split: option.splits if_splits)

lemma tweetRouter_distinct:
  assumes "distinct (like_table (prisma ctx))"
    and "tweetRouter newId now ctx req = Inr (res, db')"
  shows "distinct (like_table db')"
proof (cases req)
  case (InfiniteProfileFeedCall uid limit cur)
  with assms show ?thesis by simp
next
  case (InfiniteFeedCall onlyFollowing limit cur)
  with assms show ?thesis by simp
next
  case (CreateCall msg)
  with assms(2) obtain tweet uid where "tweet_create (prisma ctx) newId now msg uid = Inr (tweet, db')"
    by (auto simp: create_def protectedProcedure_def split: option.splits sum.splits)
  from tweet_create_likes [OF this] assms(1) show ?thesis by simp
next
  case (ToggleLikeCall tid)
  show ?thesis
  proof (cases "session ctx")
    case None
    with ToggleLikeCall assms(2) show ?thesis
      by (simp add: toggleLike_def protectedProcedure_def)
  next
    case (Some v)
    from toggleLike_flips [OF Some, of tid] ToggleLikeCall assms show ?thesis
      by (auto split: sum.splits)
  qed
qed

lemma serve_distinct: "distinct (like_table db) \<Longrightarrow> distinct (like_table (serve db calls))"
proof (induction calls arbitrary: db)
  case Nil
  then show ?case by simp
next
  case (Cons c cs)
  let ?ctx = "\<lparr> session = caller c, prisma = db \<rparr>"
  show ?case
  proof (cases "tweetRouter (freshId c) (clock c) ?ctx (request c)")
    case (Inl e)
    with Cons show ?thesis by simp
  next
    case (Inr p)
    obtain res db' where p: "p = (res, db')" by (cases p)
    have "distinct (like_table (prisma ?ctx))" using Cons.prems by simp
    from tweetRouter_distinct [OF this] Inr p have "distinct (like_table db')" by simp
    from Cons.IH [OF this] Inr p show ?thesis by simp
  qed
qed

text \<open>
  Claim C6. The invariant "at most one Like record per \<open>(userId, tweetId)\<close> pair" is
  preserved by every procedure of the router (the two feeds, \<open>create\<close>, \<open>toggleLike\<close>),
  hence by every sequence of calls; and a second like by the same user on the same tweet
  removes the existing Like instead of adding a duplicate: afterwards the table holds no
  record for the pair.
\<close>

theorem like_invariant_preserved:
  assumes "atMostOneLikePerPair db"
  shows "(\<forall>newId now s req res db'.
            tweetRouter newId now \<lparr> session = s, prisma = db \<rparr> req = Inr (res, db') \<longrightarrow>
            atMostOneLikePerPair db') \<and>
         atMostOneLikePerPair (serve db calls) \<and>
         (\<forall>v tid. \<lparr> tweetId = tid, userId = v \<rparr> \<in> set (like_table db) \<longrightarrow>
            (\<exists>db'. toggleLike \<lparr> session = Some v, prisma = db \<rparr> tid =
                      Inr (\<lparr> addedLike = False \<rparr>, db') \<and>
                   count_list (like_table db') \<lparr> tweetId = tid, userId = v \<rparr> = 0 \<and>
                   atMostOneLikePerPair db'))"
proof -
  from assms have d: "distinct (like_table db)"
    by (simp add: atMostOneLikePerPair_distinct)
  have one: "atMostOneLikePerPair db'"
    if "tweetRouter newId now \<lparr> session = s, prisma = db \<rparr> req = Inr (res, db')"
    for newId now s req res db'
    using tweetRouter_distinct [OF _ that] d by (simp add: atMostOneLikePerPair_distinct)
  have many: "atMostOneLikePerPair (serve db calls)"
    using serve_distinct [OF d] by (simp add: atMostOneLikePerPair_distinct)
  have second: "\<exists>db'. toggleLike \<lparr> session = Some v, prisma = db \<rparr> tid =
                      Inr (\<lparr> addedLike = False \<rparr>, db') \<and>
                   count_list (like_table db') \<lparr> tweetId = tid, userId = v \<rparr> = 0 \<and>
                   atMostOneLikePerPair db'"
    if "\<lparr> tweetId = tid, userId = v \<rparr> \<in> set (like_table db)" for v tid
  proof -
    have s: "session \<lparr> session = Some v, prisma = db \<rparr> = Some v" by simp
    from that have m: "\<lparr> tweetId = tid, userId = v \<rparr> \<in> set (like_table (prisma \<lparr> session = Some v, prisma = db \<rparr>))"
      by simp
    show ?thesis
      unfolding toggleLike_present [OF s m] using d
      by (simp add: atMostOneLikePerPair_distinct distinct_removeAll count_list_0_iff)
  qed
  show ?thesis using one many second by blast
qed


theorem like_invariant_preserved_witness:
  "atMostOneLikePerPair exampleDb \<and>
   atMostOneLikePerPair (serve exampleDb exampleCalls) \<and>
   like_table (serve exampleDb exampleCalls) = [ \<lparr> tweetId = ''t1'', userId = ''u2'' \<rparr> ] \<and>
   map id (tweet_table (serve exampleDb exampleCalls)) = [''t1'', ''t2'', ''t3'', ''t4'']"
proof -
  have h: "atMostOneLikePerPair exampleDb"
    by (simp add: atMostOneLikePerPair_def exampleDb_def)
  have e: "like_table (serve exampleDb exampleCalls) = [ \<lparr> tweetId = ''t1'', userId = ''u2'' \<rparr> ]"
    "map id (tweet_table (serve exampleDb exampleCalls)) = [''t1'', ''t2'', ''t3'', ''t4'']"
    by code_simp+
  show ?thesis
    using like_invariant_preserved [OF h, of exampleCalls] h e by simp
qed

section \<open>Properties of the projection and of the filter\<close>

lemma likedByMe_selected:
  "likedByMe (toTweet (selectTweet db sel r)) \<longleftrightarrow>
     (\<exists>v. sel = Some v \<and> \<lparr> tweetId = id r, userId = v \<rparr> \<in> set (like_table db))"
proof (cases sel)
  case None
  then show ?thesis by (simp add: toTweet_def selectTweet_def)
next
  case (Some u)
  have "filter (\<lambda>l. tweetId l = id r \<and> userId l = u) (like_table db) \<noteq> [] \<longleftrightarrow>
      \<lparr> tweetId = id r, userId = u \<rparr> \<in> set (like_table db)"
  proof
    assume "filter (\<lambda>l. tweetId l = id r \<and> userId l = u) (like_table db) \<noteq> []"
    then obtain l where l: "l \<in> set (like_table db)" "tweetId l = id r" "userId l = u"
      by (auto simp: filter_empty_conv)
    have "l = \<lparr> tweetId = tweetId l, userId = userId l \<rparr>" by simp
    with l have "l = \<lparr> tweetId = id r, userId = u \<rparr>" by simp
    with l show "\<lparr> tweetId = id r, userId = u \<rparr> \<in> set (like_table db)" by simp
  next
    assume "\<lparr> tweetId = id r, userId = u \<rparr> \<in> set (like_table db)"
    then have "\<exists>l \<in> set (like_table db). tweetId l = id r \<and> userId l = u"
      by (intro bexI [of _ "\<lparr> tweetId = id r, userId = u \<rparr>"]) simp_all
    then show "filter (\<lambda>l. tweetId l = id r \<and> userId l = u) (like_table db) \<noteq> []"
      by (simp add: filter_empty_conv)
  qed
  with Some show ?thesis by (simp add: toTweet_def selectTweet_def)
qed

lemma page_tweet_selected:
  assumes "t \<in> set (tweets (getInfiniteTweets whereC ctx limit cur))"
  shows "\<exists>r \<in> set (tweet_table (prisma ctx)). t = toTweet (selectTweet (prisma ctx) (session ctx) r)"
proof -
  from assms tweets_pageOf_subset
  obtain s where "s \<in> set (tweet_findMany (prisma ctx) (findManyArgs whereC ctx limit cur))"
    and t: "t = toTweet s"
    unfolding getInfiniteTweets_def by blast
  then obtain r where r: "r \<in> set (takeRows (jsPlus limit 1)
        (fromCursor (prisma ctx) (jsPlus limit 1) cur
          (orderByDesc (filter (matchesWhere whereC) (tweet_table (prisma ctx))))))"
    and s: "s = selectTweet (prisma ctx) (session ctx) r"
    by (auto simp: tweet_findMany_def findManyArgs_def)
  from r have "r \<in> set (fromCursor (prisma ctx) (jsPlus limit 1) cur
          (orderByDesc (filter (matchesWhere whereC) (tweet_table (prisma ctx)))))"
    by (auto simp: takeRows_def dest: in_set_takeD in_set_dropD split: if_splits)
  then have "r \<in> set (orderByDesc (filter (matchesWhere whereC) (tweet_table (prisma ctx))))"
    by (auto simp: fromCursor_def split: option.splits if_splits)
  then have "r \<in> set (tweet_table (prisma ctx))"
    by (simp add: set_orderByDesc)
  with s t show ?thesis by blast
qed

text \<open>
  Claim C7. For every tweet of every page \<open>getInfiniteTweets\<close> returns (whatever the
  filter, limit and cursor): \<open>likedByMe\<close> is true iff the request has a viewer and the Like
  table holds that viewer's Like on that tweet; for an anonymous request \<open>likedByMe\<close> is
  false for every returned tweet.
\<close>

theorem likedByMe_iff_viewer_likes:
  "(\<forall>t \<in> set (tweets (getInfiniteTweets whereC ctx limit cur)).
      likedByMe t \<longleftrightarrow>
        (\<exists>v. session ctx = Some v \<and> \<lparr> tweetId = id t, userId = v \<rparr> \<in> set (like_table (prisma ctx)))) \<and>
   (session ctx = None \<longrightarrow>
      (\<forall>t \<in> set (tweets (getInfiniteTweets whereC ctx limit cur)). \<not> likedByMe t))"
proof -
  have a: "likedByMe t \<longleftrightarrow>
        (\<exists>v. session ctx = Some v \<and> \<lparr> tweetId = id t, userId = v \<rparr> \<in> set (like_table (prisma ctx)))"
    if "t \<in> set (tweets (getInfiniteTweets whereC ctx limit cur))" for t
  proof -
    from page_tweet_selected [OF that] obtain r
      where t: "t = toTweet (selectTweet (prisma ctx) (session ctx) r)" by blast
    have "id t = id r" using t by (simp add: toTweet_def selectTweet_def)
    with likedByMe_selected [of "prisma ctx" "session ctx" r] t show ?thesis by simp
  qed
  then show ?thesis by simp
qed

theorem likedByMe_iff_viewer_likes_witness:
  "map id (tweets (getInfiniteTweets None viewerCtx 5 None)) = [''t3'', ''t2'', ''t1''] \<and>
   map likedByMe (tweets (getInfiniteTweets None viewerCtx 5 None)) = [True, False, False] \<and>
   list_all (\<lambda>t. likedByMe t \<longleftrightarrow> \<lparr> tweetId = id t, userId = ''u1'' \<rparr> \<in> set (like_table exampleDb))
     (tweets (getInfiniteTweets None viewerCtx 5 None)) \<and>
   session anonymousCtx = None \<and>
   list_all (\<lambda>t. \<not> likedByMe t) (tweets (getInfiniteTweets None anonymousCtx 5 None)) \<and>
   map likedByMe (tweets (getInfiniteTweets None anonymousCtx 5 None)) = [False, False, False]"
proof -
  have s: "session viewerCtx = Some ''u1''" "prisma viewerCtx = exampleDb"
    "session anonymousCtx = None"
    by (simp_all add: viewerCtx_def anonymousCtx_def)
  have e: "map id (tweets (getInfiniteTweets None viewerCtx 5 None)) = [''t3'', ''t2'', ''t1'']"
    "map likedByMe (tweets (getInfiniteTweets None viewerCtx 5 None)) = [True, False, False]"
    "map likedByMe (tweets (getInfiniteTweets None anonymousCtx 5 None)) = [False, False, False]"
    by code_simp+
  show ?thesis
    using likedByMe_iff_viewer_likes [of None viewerCtx 5 None]
      likedByMe_iff_viewer_likes [of None anonymousCtx 5 None] s e
    by (simp add: list_all_iff)
qed

text \<open>
  Claim C8. An \<open>infiniteFeed\<close> request with \<open>onlyFollowing = true\<close> from an anonymous
  viewer is answered without the filter: it returns the page that the unfiltered feed
  (\<open>onlyFollowing\<close> absent or false) returns for the same cursor and limit, which is
  \<open>getInfiniteTweets\<close> with no \<^verbatim>\<open>where\<close> clause. The feed is a total function here, so
  the request is answered and not rejected.
\<close>

theorem anonymous_onlyFollowing_is_unfiltered:
  assumes "session ctx = None"
  shows "infiniteFeed ctx (Some True) limit cur = infiniteFeed ctx None limit cur \<and>
         infiniteFeed ctx (Some True) limit cur = infiniteFeed ctx (Some False) limit cur \<and>
         infiniteFeed ctx (Some True) limit cur =
           getInfiniteTweets None ctx (case limit of None \<Rightarrow> 10 | Some n \<Rightarrow> n) cur"
  using assms by (simp add: infiniteFeed_def)

theorem anonymous_onlyFollowing_is_unfiltered_witness:
  "session anonymousCtx = None \<and>
   infiniteFeed anonymousCtx (Some True) None None = infiniteFeed anonymousCtx None None None \<and>
   map id (tweets (infiniteFeed anonymousCtx (Some True) None None)) = [''t3'', ''t2'', ''t1''] \<and>
   map id (tweets (infiniteFeed (anonymousCtx\<lparr> session := Some ''u2'' \<rparr>) (Some True) None None)) = [''t3'', ''t1'']"
proof -
  have s: "session anonymousCtx = None"
    by (simp add: anonymousCtx_def)
  have e: "map id (tweets (infiniteFeed anonymousCtx None None None)) = [''t3'', ''t2'', ''t1'']"
    "map id (tweets (infiniteFeed (anonymousCtx\<lparr> session := Some ''u2'' \<rparr>) (Some True) None None)) = [''t3'', ''t1'']"
    by code_simp+
  show ?thesis
    using anonymous_onlyFollowing_is_unfiltered [OF s, of None None] s e by simp
qed

section \<open>Properties of the client\<close>

lemma updateData_Some:
  "updateData tid added (Some old) =
     Some (old\<lparr> pages :=
       map (\<lambda>page. page\<lparr> FeedPage.tweets := map (updateTweet tid added) (FeedPage.tweets page) \<rparr>)
         (pages old) \<rparr>)"
  by (simp add: updateData_def updateTweet_def Let_def)

lemma updateData_None: "updateData tid added None = None"
  by (simp add: updateData_def)

lemma setInfiniteData_same:
  "setInfiniteData cache k (updateData tid added) k = updateData tid added (cache k)"
  by (cases "cache k") (simp_all add: setInfiniteData_def updateData_None updateData_Some)

lemma setInfiniteData_other:
  "k' \<noteq> k \<Longrightarrow> setInfiniteData cache k upd k' = cache k'"
  by (simp add: setInfiniteData_def split: option.splits)

lemma onSuccess_slot:
  "onSuccess props res cache k =
     (if k \<in> set (toggledSlots props) then updateData (id props) (addedLike res) (cache k)
      else cache k)"
proof -
  let ?u = "updateData (id props) (addedLike res)"
  let ?k1 = "InfiniteFeedKey None" and ?k2 = "InfiniteFeedKey (Some True)"
    and ?k3 = "InfiniteProfileFeedKey (User.id (Tweet.user props))"
  have d: "?k1 \<noteq> ?k2" "?k1 \<noteq> ?k3" "?k2 \<noteq> ?k3" by simp_all
  have o: "onSuccess props res cache =
      setInfiniteData (setInfiniteData (setInfiniteData cache ?k1 ?u) ?k2 ?u) ?k3 ?u"
    by (simp add: onSuccess_def Let_def)
  consider "k = ?k3" | "k = ?k2" | "k = ?k1" | "k \<noteq> ?k1" "k \<noteq> ?k2" "k \<noteq> ?k3" by blast
  then show ?thesis
  proof cases
    case 1
    then show ?thesis
      unfolding o using d
      by (simp add: setInfiniteData_same setInfiniteData_other toggledSlots_def)
  next
    case 2
    then show ?thesis
      unfolding o using d
      by (simp add: setInfiniteData_same setInfiniteData_other toggledSlots_def)
  next
    case 3
    then show ?thesis
      unfolding o using d
      by (simp add: setInfiniteData_same setInfiniteData_other toggledSlots_def)
  next
    case 4
    then show ?thesis
      unfolding o by (simp add: setInfiniteData_other toggledSlots_def)
  qed
qed

lemma updateTweet_absent:
  "\<forall>t \<in> set ts. id t \<noteq> tid \<Longrightarrow> map (updateTweet tid added) ts = ts"
  by (induction ts) (simp_all add: updateTweet_def)

lemma updateData_absent:
  assumes "\<forall>p \<in> set (pages d). \<forall>t \<in> set (FeedPage.tweets p). id t \<noteq> tid"
  shows "updateData tid added (Some d) = Some d"
proof -
  have "map (\<lambda>page. page\<lparr> FeedPage.tweets := map (updateTweet tid added) (FeedPage.tweets page) \<rparr>) (pages d)
      = map (\<lambda>page. page) (pages d)"
    using assms by (intro map_cong refl) (simp add: updateTweet_absent)
  then show ?thesis by (simp add: updateData_Some)
qed

text \<open>
  Claim C3. \<open>onSuccess\<close> computes the new cache from the old cache and the returned
  \<open>addedLike\<close> alone (nothing is fetched), and it does so in all three slots: an
  unpopulated slot stays unpopulated; in a populated slot the pages and their tweets keep
  their number and positions, every entry whose id is the id of the toggled tweet has its
  \<open>likeCount\<close> changed by \<open>+1\<close> when \<open>addedLike\<close> is true and by \<open>-1\<close> when it is false
  and its \<open>likedByMe\<close> set to \<open>addedLike\<close>, every other entry is unchanged, and a slot
  that does not contain the tweet keeps its data as it is.
\<close>

theorem onSuccess_updates_cached_tweet:
  "\<forall>k \<in> set (toggledSlots props).
     (case cache k of
        None \<Rightarrow> onSuccess props res cache k = None
      | Some d \<Rightarrow>
          (\<exists>d'. onSuccess props res cache k = Some d' \<and>
             length (pages d') = length (pages d) \<and>
             (\<forall>i < length (pages d).
                length (tweets (pages d' ! i)) = length (tweets (pages d ! i)) \<and>
                (\<forall>j < length (tweets (pages d ! i)).
                   (id (tweets (pages d ! i) ! j) = id props \<longrightarrow>
                      likeCount (tweets (pages d' ! i) ! j) =
                        likeCount (tweets (pages d ! i) ! j) + (if addedLike res then 1 else - 1) \<and>
                      likedByMe (tweets (pages d' ! i) ! j) = addedLike res) \<and>
                   (id (tweets (pages d ! i) ! j) \<noteq> id props \<longrightarrow>
                      tweets (pages d' ! i) ! j = tweets (pages d ! i) ! j))) \<and>
             ((\<forall>p \<in> set (pages d). \<forall>t \<in> set (tweets p). id t \<noteq> id props) \<longrightarrow> d' = d)))"
proof
  fix k assume k: "k \<in> set (toggledSlots props)"
  show "case cache k of
        None \<Rightarrow> onSuccess props res cache k = None
      | Some d \<Rightarrow>
          (\<exists>d'. onSuccess props res cache k = Some d' \<and>
             length (pages d') = length (pages d) \<and>
             (\<forall>i < length (pages d).
                length (tweets (pages d' ! i)) = length (tweets (pages d ! i)) \<and>
                (\<forall>j < length (tweets (pages d ! i)).
                   (id (tweets (pages d ! i) ! j) = id props \<longrightarrow>
                      likeCount (tweets (pages d' ! i) ! j) =
                        likeCount (tweets (pages d ! i) ! j) + (if addedLike res then 1 else - 1) \<and>
                      likedByMe (tweets (pages d' ! i) ! j) = addedLike res) \<and>
                   (id (tweets (pages d ! i) ! j) \<noteq> id props \<longrightarrow>
                      tweets (pages d' ! i) ! j = tweets (pages d ! i) ! j))) \<and>
             ((\<forall>p \<in> set (pages d). \<forall>t \<in> set (tweets p). id t \<noteq> id props) \<longrightarrow> d' = d))"
  proof (cases "cache k")
    case None
    with k show ?thesis by (simp add: onSuccess_slot updateData_None)
  next
    case (Some d)
    let ?d' = "d\<lparr> pages :=
       map (\<lambda>page. page\<lparr> FeedPage.tweets := map (updateTweet (id props) (addedLike res)) (FeedPage.tweets page) \<rparr>)
         (pages d) \<rparr>"
    have eq: "onSuccess props res cache k = Some ?d'"
      using k Some by (simp add: onSuccess_slot updateData_Some)
    have ab: "?d' = d" if "\<forall>p \<in> set (pages d). \<forall>t \<in> set (tweets p). id t \<noteq> id props"
      using updateData_absent [OF that, of "addedLike res"] by (simp add: updateData_Some)
    have "length (pages ?d') = length (pages d) \<and>
             (\<forall>i < length (pages d).
                length (tweets (pages ?d' ! i)) = length (tweets (pages d ! i)) \<and>
                (\<forall>j < length (tweets (pages d ! i)).
                   (id (tweets (pages d ! i) ! j) = id props \<longrightarrow>
                      likeCount (tweets (pages ?d' ! i) ! j) =
                        likeCount (tweets (pages d ! i) ! j) + (if addedLike res then 1 else - 1) \<and>
                      likedByMe (tweets (pages ?d' ! i) ! j) = addedLike res) \<and>
                   (id (tweets (pages d ! i) ! j) \<noteq> id props \<longrightarrow>
                      tweets (pages ?d' ! i) ! j = tweets (pages d ! i) ! j)))"
      by (simp add: updateTweet_def)
    with eq ab Some show ?thesis by simp
  qed
qed


lemma exampleCache_eval:
  "onSuccess tweetT1 \<lparr> addedLike = True \<rparr> exampleCache (InfiniteFeedKey None) =
     Some \<lparr> pages =
        [ \<lparr> tweets = [tweetT3, tweetT2], nextCursor = Some \<lparr> id = ''t1'', createdAt = 100 \<rparr> \<rparr>,
          \<lparr> tweets = [tweetT1\<lparr> likeCount := 2, likedByMe := True \<rparr>], nextCursor = None \<rparr> ],
        pageParams = [None, Some \<lparr> id = ''t1'', createdAt = 100 \<rparr>] \<rparr>"
  "onSuccess tweetT1 \<lparr> addedLike = True \<rparr> exampleCache (InfiniteFeedKey (Some True)) = None"
  "onSuccess tweetT1 \<lparr> addedLike = True \<rparr> exampleCache (InfiniteProfileFeedKey ''u1'') =
     Some \<lparr> pages =
        [ \<lparr> tweets = [tweetT3, tweetT1\<lparr> likeCount := 2, likedByMe := True \<rparr>], nextCursor = None \<rparr> ],
        pageParams = [None] \<rparr>"
  "onSuccess tweetT1 \<lparr> addedLike = True \<rparr> exampleCache (InfiniteProfileFeedKey ''u2'') =
     Some bobFeedData"
  by (simp_all add: onSuccess_slot toggledSlots_def updateData_Some updateData_None updateTweet_def
      globalFeedData_def aliceFeedData_def bobFeedData_def tweetT1_def tweetT2_def tweetT3_def)

theorem onSuccess_updates_cached_tweet_witness:
  "InfiniteFeedKey None \<in> set (toggledSlots tweetT1) \<and>
   InfiniteFeedKey (Some True) \<in> set (toggledSlots tweetT1) \<and>
   InfiniteProfileFeedKey ''u1'' \<in> set (toggledSlots tweetT1) \<and>
   onSuccess tweetT1 \<lparr> addedLike = True \<rparr> exampleCache (InfiniteFeedKey None) =
     Some \<lparr> pages =
        [ \<lparr> tweets = [tweetT3, tweetT2], nextCursor = Some \<lparr> id = ''t1'', createdAt = 100 \<rparr> \<rparr>,
          \<lparr> tweets = [tweetT1\<lparr> likeCount := 2, likedByMe := True \<rparr>], nextCursor = None \<rparr> ],
        pageParams = [None, Some \<lparr> id = ''t1'', createdAt = 100 \<rparr>] \<rparr> \<and>
   onSuccess tweetT1 \<lparr> addedLike = True \<rparr> exampleCache (InfiniteFeedKey (Some True)) = None \<and>
   onSuccess tweetT1 \<lparr> addedLike = True \<rparr> exampleCache (InfiniteProfileFeedKey ''u1'') =
     Some \<lparr> pages =
        [ \<lparr> tweets = [tweetT3, tweetT1\<lparr> likeCount := 2, likedByMe := True \<rparr>], nextCursor = None \<rparr> ],
        pageParams = [None] \<rparr>"
proof -
  have k: "InfiniteFeedKey None \<in> set (toggledSlots tweetT1)"
    "InfiniteFeedKey (Some True) \<in> set (toggledSlots tweetT1)"
    "InfiniteProfileFeedKey ''u1'' \<in> set (toggledSlots tweetT1)"
    by (simp_all add: toggledSlots_def tweetT1_def)
  from onSuccess_updates_cached_tweet
    [where props = tweetT1 and cache = exampleCache and res = "\<lparr> addedLike = True \<rparr>"] k exampleCache_eval
  show ?thesis by simp
qed

text \<open>
  Claim C10. The frame of the update, for every slot of the cache: a slot with no data stays
  without data (the updater returns \<^verbatim>\<open>undefined\<close> for it and nothing is stored); a slot
  with data keeps the number of its pages, its page parameters, the \<open>nextCursor\<close> of every
  page, the number and order of the tweets of every page and all their fields other than
  \<open>likeCount\<close> and \<open>likedByMe\<close>, and every tweet whose id is not the toggled one is
  unchanged in all its fields. Slots other than the three are not written at all.
\<close>

theorem onSuccess_frame:
  "(\<forall>k. case cache k of
          None \<Rightarrow> onSuccess props res cache k = None
        | Some d \<Rightarrow>
            (\<exists>d'. onSuccess props res cache k = Some d' \<and>
               length (pages d') = length (pages d) \<and>
               pageParams d' = pageParams d \<and>
               map nextCursor (pages d') = map nextCursor (pages d) \<and>
               map (\<lambda>p. map otherFields (tweets p)) (pages d') =
                 map (\<lambda>p. map otherFields (tweets p)) (pages d) \<and>
               (\<forall>i < length (pages d). \<forall>j < length (tweets (pages d ! i)).
                  id (tweets (pages d ! i) ! j) \<noteq> id props \<longrightarrow>
                    tweets (pages d' ! i) ! j = tweets (pages d ! i) ! j))) \<and>
   updateData (id props) (addedLike res) None = None \<and>
   (\<forall>k. k \<notin> set (toggledSlots props) \<longrightarrow> onSuccess props res cache k = cache k)"
proof -
  let ?u = "updateTweet (id props) (addedLike res)"
  have of_u: "otherFields (?u t) = otherFields t" for t
    by (simp add: updateTweet_def otherFields_def)
  have frame: "\<exists>d'. updateData (id props) (addedLike res) (Some d) = Some d' \<and>
               length (pages d') = length (pages d) \<and>
               pageParams d' = pageParams d \<and>
               map nextCursor (pages d') = map nextCursor (pages d) \<and>
               map (\<lambda>p. map otherFields (tweets p)) (pages d') =
                 map (\<lambda>p. map otherFields (tweets p)) (pages d) \<and>
               (\<forall>i < length (pages d). \<forall>j < length (tweets (pages d ! i)).
                  id (tweets (pages d ! i) ! j) \<noteq> id props \<longrightarrow>
                    tweets (pages d' ! i) ! j = tweets (pages d ! i) ! j)" for d
  proof -
    let ?d' = "d\<lparr> pages :=
       map (\<lambda>page. page\<lparr> FeedPage.tweets := map ?u (FeedPage.tweets page) \<rparr>) (pages d) \<rparr>"
    have 1: "map (\<lambda>p. map otherFields (tweets p)) (pages ?d') =
        map (\<lambda>p. map otherFields (tweets p)) (pages d)"
      by (simp add: o_def of_u)
    have 2: "map nextCursor (pages ?d') = map nextCursor (pages d)"
      by (simp add: o_def)
    have 3: "\<forall>i < length (pages d). \<forall>j < length (tweets (pages d ! i)).
        id (tweets (pages d ! i) ! j) \<noteq> id props \<longrightarrow>
          tweets (pages ?d' ! i) ! j = tweets (pages d ! i) ! j"
      by (simp add: updateTweet_def)
    have 4: "length (pages ?d') = length (pages d)" "pageParams ?d' = pageParams d"
      by simp_all
    show ?thesis
      unfolding updateData_Some using 1 2 3 4 by blast
  qed
  have same: "\<exists>d'. Some d = Some d' \<and>
               length (pages d') = length (pages d) \<and>
               pageParams d' = pageParams d \<and>
               map nextCursor (pages d') = map nextCursor (pages d) \<and>
               map (\<lambda>p. map otherFields (tweets p)) (pages d') =
                 map (\<lambda>p. map otherFields (tweets p)) (pages d) \<and>
               (\<forall>i < length (pages d). \<forall>j < length (tweets (pages d ! i)).
                  id (tweets (pages d ! i) ! j) \<noteq> id props \<longrightarrow>
                    tweets (pages d' ! i) ! j = tweets (pages d ! i) ! j)" for d
    by simp
  have slot: "case cache k of
          None \<Rightarrow> onSuccess props res cache k = None
        | Some d \<Rightarrow>
            (\<exists>d'. onSuccess props res cache k = Some d' \<and>
               length (pages d') = length (pages d) \<and>
               pageParams d' = pageParams d \<and>
               map nextCursor (pages d') = map nextCursor (pages d) \<and>
               map (\<lambda>p. map otherFields (tweets p)) (pages d') =
                 map (\<lambda>p. map otherFields (tweets p)) (pages d) \<and>
               (\<forall>i < length (pages d). \<forall>j < length (tweets (pages d ! i)).
                  id (tweets (pages d ! i) ! j) \<noteq> id props \<longrightarrow>
                    tweets (pages d' ! i) ! j = tweets (pages d ! i) ! j))" for k
  proof (cases "cache k")
    case None
    then show ?thesis by (simp add: onSuccess_slot updateData_None)
  next
    case (Some d)
    show ?thesis
    proof (cases "k \<in> set (toggledSlots props)")
      case True
      with Some frame [of d] show ?thesis by (simp add: onSuccess_slot)
    next
      case False
      with Some same [of d] show ?thesis by (simp add: onSuccess_slot)
    qed
  qed
  have rest: "onSuccess props res cache k = cache k" if "k \<notin> set (toggledSlots props)" for k
    using that by (simp add: onSuccess_slot)
  show ?thesis
    using slot rest updateData_None by blast
qed


theorem onSuccess_frame_witness:
  "exampleCache (InfiniteFeedKey (Some True)) = None \<and>
   onSuccess tweetT1 \<lparr> addedLike = True \<rparr> exampleCache (InfiniteFeedKey (Some True)) = None \<and>
   InfiniteProfileFeedKey ''u2'' \<notin> set (toggledSlots tweetT1) \<and>
   onSuccess tweetT1 \<lparr> addedLike = True \<rparr> exampleCache (InfiniteProfileFeedKey ''u2'') =
     exampleCache (InfiniteProfileFeedKey ''u2'') \<and>
   (\<exists>d'. onSuccess tweetT1 \<lparr> addedLike = True \<rparr> exampleCache (InfiniteFeedKey None) = Some d' \<and>
      map nextCursor (pages d') = [Some \<lparr> id = ''t1'', createdAt = 100 \<rparr>, None] \<and>
      pageParams d' = [None, Some \<lparr> id = ''t1'', createdAt = 100 \<rparr>] \<and>
      map (\<lambda>p. map id (tweets p)) (pages d') = [[''t3'', ''t2''], [''t1'']] \<and>
      tweets (pages d' ! 0) ! 1 = tweetT2)"
proof -
  have k: "InfiniteProfileFeedKey ''u2'' \<notin> set (toggledSlots tweetT1)"
    by (simp add: toggledSlots_def tweetT1_def)
  have i: "map id [tweetT3, tweetT2] = [''t3'', ''t2'']" "id tweetT1 = ''t1''"
    by (simp_all add: tweetT1_def tweetT2_def tweetT3_def)
  from onSuccess_frame
    [where props = tweetT1 and cache = exampleCache and res = "\<lparr> addedLike = True \<rparr>"] k exampleCache_eval i
  show ?thesis by simp
qed

text \<open>
  Claim C9, at the inputs where the component does not do what the claim and the
  component's own comments say. While loading with no tweets yet, and after an error with
  no tweets, \<open>InfiniteTweetList\<close> returns \<^verbatim>\<open>null\<close>: the spinner and the error heading are
  built and dropped, since neither statement returns. No props make the component return
  the spinner or the error heading. The third part of the claim holds: "No Tweets" is
  returned exactly when the tweets are present and empty.
\<close>

theorem InfiniteTweetList_drops_indicators:
  "InfiniteTweetList
     \<lparr> isLoading = True, isError = Some False, hasMore = None, fetchNewTweets = (),
       tweets = None \<rparr> = None \<and>
   InfiniteTweetList
     \<lparr> isLoading = False, isError = Some True, hasMore = None, fetchNewTweets = (),
       tweets = None \<rparr> = None \<and>
   InfiniteTweetList
     \<lparr> isLoading = True, isError = Some True, hasMore = Some True, fetchNewTweets = (),
       tweets = Some [] \<rparr> = Some NoTweets \<and>
   InfiniteTweetList
     \<lparr> isLoading = True, isError = Some True, hasMore = None, fetchNewTweets = (),
       tweets = Some [tweetT1] \<rparr> = Some (TweetList 1 () False LoadingSpinner [tweetT1]) \<and>
   (\<forall>props :: unit InfiniteTweetListProps.
      InfiniteTweetList props \<noteq> Some LoadingSpinner \<and>
      InfiniteTweetList props \<noteq> Some ErrorHeading \<and>
      (InfiniteTweetList props = Some NoTweets) = (InfiniteTweetListProps.tweets props = Some []))"
  by (auto simp: InfiniteTweetList_def Let_def split: option.splits)

end
